theory Spec2Isabelle
  imports Complex_Main
begin

section \<open>Python runtime: errors, paths and files\<close>

text \<open>
  The two programs, \<^verbatim>\<open>training_logger.py\<close> and \<^verbatim>\<open>monitor_training.py\<close>, talk to each
  other only through files. Exceptions are values of \<open>error\<close>; a function that can raise
  returns \<open>error + 'a\<close>. When a function raises, its result is the error alone: what it
  had printed or written before the exception is not kept.
\<close>

datatype error =
    FileNotFoundError
  | FileExistsError
  | NotADirectoryError
  | IsADirectoryError
  | ValueError
  | TypeError
  | CsvError

text \<open>
  A \<^verbatim>\<open>pathlib.Path\<close> is the list of its components, relative to the working directory
  (the empty list). The file system holds the directories that exist and the text of every
  regular file. Permissions, links and full disks are not part of it: opening a file fails
  only on a directory, on a path that leads through a regular file, and on a missing parent.
\<close>

type_synonym path = "string list"

record filesystem =
  dirs :: "path set"
  files :: "path \<rightharpoonup> string"

definition is_dir :: "filesystem \<Rightarrow> path \<Rightarrow> bool" where
  "is_dir fs p = (p = [] \<or> p \<in> dirs fs)"

definition is_file :: "filesystem \<Rightarrow> path \<Rightarrow> bool" where
  "is_file fs p = (\<not> is_dir fs p \<and> files fs p \<noteq> None)"

definition path_exists :: "filesystem \<Rightarrow> path \<Rightarrow> bool" where
  "path_exists fs p = (is_dir fs p \<or> is_file fs p)"

text \<open>The proper ancestors of a path, nearest the root first: \<open>a/b/c\<close> has \<open>a\<close> and \<open>a/b\<close>.\<close>

fun ancestors :: "path \<Rightarrow> path list" where
  "ancestors [] = []"
| "ancestors (c # cs) = (if cs = [] then [] else [c] # map ((#) c) (ancestors cs))"

definition through_file :: "filesystem \<Rightarrow> path \<Rightarrow> bool" where
  "through_file fs p = list_ex (is_file fs) (ancestors p)"

text \<open>\<^verbatim>\<open>os.mkdir\<close>: one directory, whose parent has to be there.\<close>

definition os_mkdir :: "filesystem \<Rightarrow> path \<Rightarrow> error + filesystem" where
  "os_mkdir fs p =
     (if path_exists fs p then Inl FileExistsError
      else if through_file fs p then Inl NotADirectoryError
      else if \<not> is_dir fs (butlast p) then Inl FileNotFoundError
      else Inr (fs\<lparr>dirs := insert p (dirs fs)\<rparr>))"

text \<open>
  \<^verbatim>\<open>Path.mkdir(parents=True, exist_ok=True)\<close>, as pathlib writes it: try \<^verbatim>\<open>os.mkdir\<close>;
  on \<^verbatim>\<open>FileNotFoundError\<close> make the parent first and try once more; any other error is
  forgiven when the path is a directory already.
\<close>

function mkdir_parents :: "filesystem \<Rightarrow> path \<Rightarrow> error + filesystem" where
  "mkdir_parents fs p =
     (case os_mkdir fs p of
        Inr fs' \<Rightarrow> Inr fs'
      | Inl FileNotFoundError \<Rightarrow>
          (if p = [] then Inl FileNotFoundError
           else (case mkdir_parents fs (butlast p) of
                   Inl e \<Rightarrow> Inl e
                 | Inr fs1 \<Rightarrow>
                     (case os_mkdir fs1 p of
                        Inr fs2 \<Rightarrow> Inr fs2
                      | Inl FileNotFoundError \<Rightarrow> Inl FileNotFoundError
                      | Inl e \<Rightarrow> if is_dir fs1 p then Inr fs1 else Inl e)))
      | Inl e \<Rightarrow> if is_dir fs p then Inr fs else Inl e)"
  by pat_completeness auto
termination
  by (relation "measure (\<lambda>(fs, p). length p)") auto

declare mkdir_parents.simps [simp del]

text \<open>
  \<^verbatim>\<open>open(path, mode)\<close> followed by one write and the close of the \<^verbatim>\<open>with\<close> block.
  The logger opens its tables with \<^verbatim>\<open>newline=''\<close>, and the event log holds no line
  terminator but \<^verbatim>\<open>\n\<close>, so the text is stored as it is written.
\<close>

definition open_check :: "filesystem \<Rightarrow> path \<Rightarrow> error option" where
  "open_check fs p =
     (if is_dir fs p then Some IsADirectoryError
      else if through_file fs p then Some NotADirectoryError
      else if \<not> is_dir fs (butlast p) then Some FileNotFoundError
      else None)"

definition write_text :: "filesystem \<Rightarrow> path \<Rightarrow> string \<Rightarrow> error + filesystem" where
  "write_text fs p s =
     (case open_check fs p of
        Some e \<Rightarrow> Inl e
      | None \<Rightarrow> Inr (fs\<lparr>files := (files fs)(p \<mapsto> s)\<rparr>))"

definition file_text :: "filesystem \<Rightarrow> path \<Rightarrow> string" where
  "file_text fs p = (case files fs p of None \<Rightarrow> [] | Some old \<Rightarrow> old)"

definition append_text :: "filesystem \<Rightarrow> path \<Rightarrow> string \<Rightarrow> error + filesystem" where
  "append_text fs p s =
     (case open_check fs p of
        Some e \<Rightarrow> Inl e
      | None \<Rightarrow> Inr (fs\<lparr>files := (files fs)(p \<mapsto> file_text fs p @ s)\<rparr>))"

definition read_text :: "filesystem \<Rightarrow> path \<Rightarrow> error + string" where
  "read_text fs p =
     (if is_dir fs p then Inl IsADirectoryError
      else (case files fs p of None \<Rightarrow> Inl FileNotFoundError | Some s \<Rightarrow> Inr s))"

section \<open>Python runtime: values, \<^verbatim>\<open>str\<close> and the csv writer\<close>

text \<open>
  The cells the logger hands to \<^verbatim>\<open>csv.writer\<close>. The logging calls never compute with a
  float: they store \<^verbatim>\<open>str(x)\<close> in the table and format it for the event log. A float is
  therefore carried by its \<^verbatim>\<open>repr\<close>, the shortest decimal text that identifies it
  (\<^verbatim>\<open>0.42\<close>, \<^verbatim>\<open>0.0\<close>, \<^verbatim>\<open>1e-05\<close>).
\<close>

datatype pyfloat = Float (repr: string)

datatype pyval = PStr string | PInt int | PFloat pyfloat | PNone

definition digit_char :: "nat \<Rightarrow> char" where
  "digit_char d = ''0123456789'' ! d"

fun str_nat :: "nat \<Rightarrow> string" where
  "str_nat n = (if n < 10 then [digit_char n] else str_nat (n div 10) @ [digit_char (n mod 10)])"

declare str_nat.simps [simp del]

definition str_int :: "int \<Rightarrow> string" where
  "str_int i = (if i < 0 then CHR ''-'' # str_nat (nat (- i)) else str_nat (nat i))"

fun py_str :: "pyval \<Rightarrow> string" where
  "py_str (PStr s) = s"
| "py_str (PInt i) = str_int i"
| "py_str (PFloat x) = repr x"
| "py_str PNone = []"

text \<open>
  \<^verbatim>\<open>csv.writer(f)\<close> with the default \<^verbatim>\<open>excel\<close> dialect: delimiter comma, quote character
  \<^verbatim>\<open>"\<close>, doubled inside a quoted field, \<^verbatim>\<open>QUOTE_MINIMAL\<close>, line terminator \<^verbatim>\<open>\r\n\<close>.
  A field is quoted when it holds the delimiter, the quote character or a character of the
  line terminator; a row that would be written as nothing (one empty field) is written as
  an empty quoted field.
\<close>

abbreviation CR :: char where "CR \<equiv> CHR 0x0D"
abbreviation LF :: char where "LF \<equiv> CHR 0x0A"
abbreviation delimiter :: char where "delimiter \<equiv> CHR '',''"
abbreviation quotechar :: char where "quotechar \<equiv> CHR 0x22"

definition needs_quote :: "string \<Rightarrow> bool" where
  "needs_quote s = list_ex (\<lambda>c. c = delimiter \<or> c = quotechar \<or> c = CR \<or> c = LF) s"

definition double_quotes :: "string \<Rightarrow> string" where
  "double_quotes s = concat (map (\<lambda>c. if c = quotechar then [quotechar, quotechar] else [c]) s)"

definition join_field :: "string \<Rightarrow> string" where
  "join_field s = (if needs_quote s then [quotechar] @ double_quotes s @ [quotechar] else s)"

fun join_fields :: "string list \<Rightarrow> string" where
  "join_fields [] = []"
| "join_fields [f] = join_field f"
| "join_fields (f # fs) = join_field f @ [delimiter] @ join_fields fs"

definition writerow :: "pyval list \<Rightarrow> string" where
  "writerow row =
     (let rec = join_fields (map py_str row)
      in (if row \<noteq> [] \<and> rec = [] then [quotechar, quotechar] else rec) @ [CR, LF])"

section \<open>The training logger\<close>

text \<open>
  What \<^verbatim>\<open>TrainingLogger\<close> asks of the runtime at one call: the clock, rendered by
  \<^verbatim>\<open>datetime.now().isoformat()\<close>, by \<^verbatim>\<open>strftime('%Y-%m-%d %H:%M:%S')\<close> and by
  \<^verbatim>\<open>strftime('%Y%m%d_%H%M%S')\<close>, and the float format \<^verbatim>\<open>:.4f\<close> used in event lines.
\<close>

record runtime =
  now_iso :: string
  now_event :: string
  now_compact :: string
  format_4f :: "pyfloat \<Rightarrow> string"

record training_logger =
  output_dir :: path
  experiment_name :: string
  metrics_file :: path
  actions_file :: path
  events_file :: path
  config_file :: path
  metrics_buffer :: "pyval list list"
  actions_buffer :: "pyval list list"
  events_buffer :: "string list"

definition metrics_header :: "pyval list" where
  "metrics_header = map PStr
     [''timestamp'', ''round'', ''client_id'', ''mean_reward'',
      ''std_reward'', ''episode_length'', ''loss'', ''global_reward'']"

definition actions_header :: "pyval list" where
  "actions_header = map PStr
     [''timestamp'', ''round'', ''client_id'',
      ''skip_0'', ''skip_1'', ''skip_2'', ''skip_3'', ''skip_4'',
      ''bitrate_low'', ''bitrate_med'', ''bitrate_high'', ''bitrate_auto'',
      ''prefetch_off'', ''prefetch_short'', ''prefetch_long'']"

definition init_metrics_csv :: "training_logger \<Rightarrow> filesystem \<Rightarrow> error + filesystem" where
  "init_metrics_csv lg fs =
     (if \<not> path_exists fs (metrics_file lg)
      then write_text fs (metrics_file lg) (writerow metrics_header)
      else Inr fs)"

definition init_actions_csv :: "training_logger \<Rightarrow> filesystem \<Rightarrow> error + filesystem" where
  "init_actions_csv lg fs =
     (if \<not> path_exists fs (actions_file lg)
      then write_text fs (actions_file lg) (writerow actions_header)
      else Inr fs)"

definition log_event ::
  "runtime \<Rightarrow> training_logger \<Rightarrow> filesystem \<Rightarrow> string \<Rightarrow> string \<Rightarrow>
     error + training_logger \<times> filesystem" where
  "log_event rt lg fs message level =
     (let timestamp = now_event rt;
          log_line = ''['' @ timestamp @ ''] ['' @ level @ ''] '' @ message @ [LF]
      in case append_text fs (events_file lg) log_line of
           Inl e \<Rightarrow> Inl e
         | Inr fs' \<Rightarrow> Inr (lg\<lparr>events_buffer := events_buffer lg @ [log_line]\<rparr>, fs'))"

text \<open>\<^verbatim>\<open>TrainingLogger.__init__\<close>.\<close>

definition TrainingLogger ::
  "runtime \<Rightarrow> filesystem \<Rightarrow> path \<Rightarrow> string option \<Rightarrow> error + training_logger \<times> filesystem" where
  "TrainingLogger rt fs out_dir name =
     (case mkdir_parents fs out_dir of
        Inl e \<Rightarrow> Inl e
      | Inr fs1 \<Rightarrow>
          (let lg0 = \<lparr>output_dir = out_dir,
                      experiment_name = (case name of None \<Rightarrow> now_compact rt | Some n \<Rightarrow> n),
                      metrics_file = out_dir @ [''metrics.csv''],
                      actions_file = out_dir @ [''actions.csv''],
                      events_file = out_dir @ [''training_log.txt''],
                      config_file = out_dir @ [''config.json''],
                      metrics_buffer = [], actions_buffer = [], events_buffer = []\<rparr>
           in case init_metrics_csv lg0 fs1 of
                Inl e \<Rightarrow> Inl e
              | Inr fs2 \<Rightarrow>
                  (case init_actions_csv lg0 fs2 of
                     Inl e \<Rightarrow> Inl e
                   | Inr fs3 \<Rightarrow> log_event rt lg0 fs3 ''Logger initialized'' ''INFO'')))"

text \<open>
  \<^verbatim>\<open>log_round\<close>. The defaults of the source (\<^verbatim>\<open>std_reward=0.0\<close>, \<^verbatim>\<open>episode_length=0\<close>,
  \<^verbatim>\<open>loss=0.0\<close>, \<^verbatim>\<open>global_reward=None\<close>) are supplied by the caller of the model.
\<close>

definition round_message :: "runtime \<Rightarrow> int \<Rightarrow> int \<Rightarrow> pyfloat \<Rightarrow> pyfloat \<Rightarrow> string" where
  "round_message rt round_num client_id mean_reward loss =
     ''Round '' @ str_int round_num @ '' | Client '' @ str_int client_id @
     '' | Reward: '' @ format_4f rt mean_reward @ '' | Loss: '' @ format_4f rt loss"

definition log_round ::
  "runtime \<Rightarrow> training_logger \<Rightarrow> filesystem \<Rightarrow>
     int \<Rightarrow> int \<Rightarrow> pyfloat \<Rightarrow> pyfloat \<Rightarrow> int \<Rightarrow> pyfloat \<Rightarrow> pyfloat option \<Rightarrow>
     error + training_logger \<times> filesystem" where
  "log_round rt lg fs round_num client_id mean_reward std_reward episode_length loss global_reward =
     (let timestamp = now_iso rt;
          row = [PStr timestamp, PInt round_num, PInt client_id, PFloat mean_reward,
                 PFloat std_reward, PInt episode_length, PFloat loss,
                 (case global_reward of Some g \<Rightarrow> PFloat g | None \<Rightarrow> PStr [])]
      in case append_text fs (metrics_file lg) (writerow row) of
           Inl e \<Rightarrow> Inl e
         | Inr fs1 \<Rightarrow>
             (case log_event rt lg fs1 (round_message rt round_num client_id mean_reward loss)
                     ''METRIC'' of
                Inl e \<Rightarrow> Inl e
              | Inr (lg1, fs2) \<Rightarrow>
                  Inr (lg1\<lparr>metrics_buffer := metrics_buffer lg1 @ [row]\<rparr>, fs2)))"

text \<open>
  \<^verbatim>\<open>log_action_distribution\<close>. Python's \<^verbatim>\<open>[0] * k\<close> is the empty list for \<open>k \<le> 0\<close>, which
  is what \<open>replicate\<close> on the truncating difference of two naturals gives.
\<close>

definition pad_action_counts :: "int list \<Rightarrow> int list" where
  "pad_action_counts action_counts =
     (if length action_counts \<noteq> 12
      then action_counts @ replicate (12 - length action_counts) 0
      else action_counts)"

definition log_action_distribution ::
  "runtime \<Rightarrow> training_logger \<Rightarrow> filesystem \<Rightarrow> int \<Rightarrow> int \<Rightarrow> int list \<Rightarrow>
     error + training_logger \<times> filesystem" where
  "log_action_distribution rt lg fs round_num client_id action_counts =
     (let timestamp = now_iso rt;
          action_counts' = pad_action_counts action_counts;
          row = [PStr timestamp, PInt round_num, PInt client_id] @ map PInt action_counts'
      in case append_text fs (actions_file lg) (writerow row) of
           Inl e \<Rightarrow> Inl e
         | Inr fs' \<Rightarrow> Inr (lg\<lparr>actions_buffer := actions_buffer lg @ [row]\<rparr>, fs'))"

section \<open>Python runtime: text files read back and the csv reader\<close>

text \<open>
  The monitor opens a table with \<^verbatim>\<open>open(filepath, 'r')\<close>: text mode with universal
  newlines, so \<^verbatim>\<open>\r\n\<close> and a lone \<^verbatim>\<open>\r\<close> both arrive as \<^verbatim>\<open>\n\<close>, and iterating the file
  gives its lines, each with its terminator.
\<close>

fun universal_newlines :: "string \<Rightarrow> string" where
  "universal_newlines [] = []"
| "universal_newlines [c] = (if c = CR then [LF] else [c])"
| "universal_newlines (c # d # s) =
     (if c = CR then (if d = LF then LF # universal_newlines s else LF # universal_newlines (d # s))
      else c # universal_newlines (d # s))"

fun split_lines :: "string \<Rightarrow> string \<Rightarrow> string list" where
  "split_lines acc [] = (if acc = [] then [] else [acc])"
| "split_lines acc (c # s) =
     (if c = LF then (acc @ [LF]) # split_lines [] s else split_lines (acc @ [c]) s)"

definition file_lines :: "string \<Rightarrow> string list" where
  "file_lines text = split_lines [] (universal_newlines text)"

text \<open>
  \<^verbatim>\<open>csv.reader\<close>, the state machine of CPython's \<^verbatim>\<open>_csv\<close> module for the \<^verbatim>\<open>excel\<close>
  dialect (no escape character, doubled quotes, not strict). \<open>None\<close> as input character is
  the end-of-line signal the reader sends after every line. A field longer than
  \<^verbatim>\<open>field_size_limit\<close> is the one error this dialect can raise on text.
\<close>

datatype parser_state =
    START_RECORD | START_FIELD | IN_FIELD | IN_QUOTED_FIELD | QUOTE_IN_QUOTED_FIELD | EAT_CRNL

record parser =
  state :: parser_state
  field :: string
  row_fields :: "string list"

definition field_limit :: nat where
  "field_limit = 131072"

definition parse_reset :: parser where
  "parse_reset = \<lparr>state = START_RECORD, field = [], row_fields = []\<rparr>"

definition parse_save_field :: "parser \<Rightarrow> parser" where
  "parse_save_field p = p\<lparr>row_fields := row_fields p @ [field p], field := []\<rparr>"

definition parse_add_char :: "parser \<Rightarrow> char \<Rightarrow> error + parser" where
  "parse_add_char p c =
     (if length (field p) \<ge> field_limit then Inl CsvError
      else Inr (p\<lparr>field := field p @ [c]\<rparr>))"

definition is_newline :: "char option \<Rightarrow> bool" where
  "is_newline c = (c = Some LF \<or> c = Some CR \<or> c = None)"

definition after_newline :: "char option \<Rightarrow> parser_state" where
  "after_newline c = (if c = None then START_RECORD else EAT_CRNL)"

definition start_field :: "parser \<Rightarrow> char option \<Rightarrow> error + parser" where
  "start_field p c =
     (if is_newline c then Inr ((parse_save_field p)\<lparr>state := after_newline c\<rparr>)
      else if c = Some quotechar then Inr (p\<lparr>state := IN_QUOTED_FIELD\<rparr>)
      else if c = Some delimiter then Inr ((parse_save_field p)\<lparr>state := START_FIELD\<rparr>)
      else (case parse_add_char p (the c) of
              Inl e \<Rightarrow> Inl e
            | Inr p' \<Rightarrow> Inr (p'\<lparr>state := IN_FIELD\<rparr>)))"

fun parse_process_char :: "parser \<Rightarrow> char option \<Rightarrow> error + parser" where
  "parse_process_char p c =
     (case state p of
        START_RECORD \<Rightarrow>
          (if c = None then Inr p
           else if c = Some LF \<or> c = Some CR then Inr (p\<lparr>state := EAT_CRNL\<rparr>)
           else start_field p c)
      | START_FIELD \<Rightarrow> start_field p c
      | IN_FIELD \<Rightarrow>
          (if is_newline c then Inr ((parse_save_field p)\<lparr>state := after_newline c\<rparr>)
           else if c = Some delimiter then Inr ((parse_save_field p)\<lparr>state := START_FIELD\<rparr>)
           else parse_add_char p (the c))
      | IN_QUOTED_FIELD \<Rightarrow>
          (if c = None then Inr p
           else if c = Some quotechar then Inr (p\<lparr>state := QUOTE_IN_QUOTED_FIELD\<rparr>)
           else parse_add_char p (the c))
      | QUOTE_IN_QUOTED_FIELD \<Rightarrow>
          (if c = Some quotechar
           then (case parse_add_char p quotechar of
                   Inl e \<Rightarrow> Inl e
                 | Inr p' \<Rightarrow> Inr (p'\<lparr>state := IN_QUOTED_FIELD\<rparr>))
           else if c = Some delimiter then Inr ((parse_save_field p)\<lparr>state := START_FIELD\<rparr>)
           else if is_newline c then Inr ((parse_save_field p)\<lparr>state := after_newline c\<rparr>)
           else (case parse_add_char p (the c) of
                   Inl e \<Rightarrow> Inl e
                 | Inr p' \<Rightarrow> Inr (p'\<lparr>state := IN_FIELD\<rparr>)))
      | EAT_CRNL \<Rightarrow>
          (if c = Some LF \<or> c = Some CR then Inr p
           else if c = None then Inr (p\<lparr>state := START_RECORD\<rparr>)
           else Inl CsvError))"

declare parse_process_char.simps [simp del]

text \<open>One line, character by character, then the end-of-line signal.\<close>

fun feed :: "parser \<Rightarrow> string \<Rightarrow> error + parser" where
  "feed p [] = parse_process_char p None"
| "feed p (c # s) =
     (case parse_process_char p (Some c) of Inl e \<Rightarrow> Inl e | Inr p' \<Rightarrow> feed p' s)"

text \<open>
  \<^verbatim>\<open>list(reader)\<close>: a record ends when a line leaves the machine in \<open>START_RECORD\<close>;
  a quoted field that is still open takes the next line too. When the lines run out inside
  a record, what has been read is the last record.
\<close>

fun read_records :: "parser \<Rightarrow> string list \<Rightarrow> error + string list list" where
  "read_records p [] =
     (if field p \<noteq> [] \<or> state p = IN_QUOTED_FIELD
      then Inr [row_fields (parse_save_field p)] else Inr [])"
| "read_records p (l # ls) =
     (case feed p l of
        Inl e \<Rightarrow> Inl e
      | Inr p' \<Rightarrow>
          (if state p' = START_RECORD
           then (case read_records parse_reset ls of
                   Inl e \<Rightarrow> Inl e
                 | Inr rs \<Rightarrow> Inr (row_fields p' # rs))
           else read_records p' ls))"

definition csv_reader :: "string \<Rightarrow> error + string list list" where
  "csv_reader text = read_records parse_reset (file_lines text)"

text \<open>
  \<^verbatim>\<open>csv.DictReader\<close>: the first record names the columns; later records that are empty
  are skipped. A dictionary key is \<open>Some name\<close>, or \<open>None\<close> for the \<^verbatim>\<open>restkey\<close> under which
  the surplus cells of a long row are kept; a short row is filled up with \<^verbatim>\<open>None\<close>.
  \<^verbatim>\<open>dict(zip(...))\<close> keeps the last value of a repeated column name.
\<close>

datatype cell = Str string | NoneCell | Rest "string list"

type_synonym row = "string option \<rightharpoonup> cell"

definition dict_row :: "string list \<Rightarrow> string list \<Rightarrow> row" where
  "dict_row fieldnames r =
     (let d = map_of (rev (zip (map Some fieldnames) (map Str r)));
          lf = length fieldnames;
          lr = length r
      in if lf < lr then d(None \<mapsto> Rest (drop lf r))
         else if lf > lr then foldl (\<lambda>d key. d(Some key \<mapsto> NoneCell)) d (drop lr fieldnames)
         else d)"

definition DictReader :: "string \<Rightarrow> error + row list" where
  "DictReader text =
     (case csv_reader text of
        Inl e \<Rightarrow> Inl e
      | Inr [] \<Rightarrow> Inr []
      | Inr (fieldnames # records) \<Rightarrow>
          Inr (map (dict_row fieldnames) (filter (\<lambda>r. r \<noteq> []) records)))"

section \<open>Python runtime: \<^verbatim>\<open>float\<close> and \<^verbatim>\<open>int\<close>\<close>

text \<open>
  The monitor computes with the numbers it parses. Floats are idealised as reals: no
  rounding, no overflow, and none of the non-finite values. \<open>float_of_string\<close> is Python's
  \<^verbatim>\<open>float(s)\<close> on text: surrounding white space is dropped, single underscores may
  separate digits, then come an optional sign, digits with an optional fraction, and an
  optional exponent. \<open>None\<close> is \<^verbatim>\<open>ValueError\<close>. The literals \<^verbatim>\<open>inf\<close>, \<^verbatim>\<open>infinity\<close> and
  \<^verbatim>\<open>nan\<close>, which Python turns into non-finite floats, have no real value and are not
  accepted here.
\<close>

definition is_space :: "char \<Rightarrow> bool" where
  "is_space c = (c \<in> set [CHR '' '', CHR 0x09, LF, CHR 0x0B, CHR 0x0C, CR,
                           CHR 0x1C, CHR 0x1D, CHR 0x1E, CHR 0x1F])"

definition strip :: "string \<Rightarrow> string" where
  "strip s = rev (dropWhile is_space (rev (dropWhile is_space s)))"

definition is_digit :: "char \<Rightarrow> bool" where
  "is_digit c = (c \<in> set ''0123456789'')"

definition digit_value :: "char \<Rightarrow> nat" where
  "digit_value c = of_char c - 48"

definition digits_value :: "string \<Rightarrow> nat" where
  "digits_value s = foldl (\<lambda>n c. 10 * n + digit_value c) 0 s"

fun underscores_ok :: "char \<Rightarrow> string \<Rightarrow> bool" where
  "underscores_ok prev [] = (prev \<noteq> CHR ''_'')"
| "underscores_ok prev (c # s) =
     (if c = CHR ''_'' then is_digit prev \<and> underscores_ok c s
      else (prev = CHR ''_'' \<longrightarrow> is_digit c) \<and> underscores_ok c s)"

definition take_sign :: "string \<Rightarrow> bool \<times> string" where
  "take_sign s =
     (case s of
        [] \<Rightarrow> (False, [])
      | c # r \<Rightarrow> if c = CHR ''-'' then (True, r) else if c = CHR ''+'' then (False, r) else (False, s))"

definition parse_exponent :: "string \<Rightarrow> int option" where
  "parse_exponent s =
     (case s of
        [] \<Rightarrow> Some 0
      | c # r \<Rightarrow>
          if c = CHR ''e'' \<or> c = CHR ''E''
          then (let (neg, ds) = take_sign r
                in if ds \<noteq> [] \<and> list_all is_digit ds
                   then Some (if neg then - int (digits_value ds) else int (digits_value ds))
                   else None)
          else None)"

definition scale10 :: "real \<Rightarrow> int \<Rightarrow> real" where
  "scale10 x e = (if e \<ge> 0 then x * 10 ^ nat e else x / 10 ^ nat (- e))"

definition parse_decimal :: "string \<Rightarrow> real option" where
  "parse_decimal s =
     (let (neg, s1) = take_sign s;
          ip = takeWhile is_digit s1;
          s2 = dropWhile is_digit s1;
          (fp, s3) = (case s2 of
                        [] \<Rightarrow> ([], [])
                      | c # r \<Rightarrow> if c = CHR ''.''
                                then (takeWhile is_digit r, dropWhile is_digit r)
                                else ([], s2))
      in if ip = [] \<and> fp = [] then None
         else (case parse_exponent s3 of
                 None \<Rightarrow> None
               | Some e \<Rightarrow>
                   (let m = real (digits_value ip) + real (digits_value fp) / 10 ^ length fp;
                        x = scale10 m e
                    in Some (if neg then - x else x))))"

definition float_of_string :: "string \<Rightarrow> real option" where
  "float_of_string s =
     (let t = strip s
      in if underscores_ok (CHR 0x00) t
         then parse_decimal (filter (\<lambda>c. c \<noteq> CHR ''_'') t)
         else None)"

text \<open>\<^verbatim>\<open>float(x)\<close> on what a row can hold, and \<^verbatim>\<open>int(x)\<close> on a float (towards zero).\<close>

fun float_of_cell :: "cell \<Rightarrow> error + real" where
  "float_of_cell (Str s) = (case float_of_string s of None \<Rightarrow> Inl ValueError | Some x \<Rightarrow> Inr x)"
| "float_of_cell NoneCell = Inl TypeError"
| "float_of_cell (Rest l) = Inl TypeError"

definition int_of_float :: "real \<Rightarrow> int" where
  "int_of_float x = (if x \<ge> 0 then \<lfloor>x\<rfloor> else \<lceil>x\<rceil>)"

text \<open>Truth value of a cell: an empty string, \<^verbatim>\<open>None\<close> and an empty list are false.\<close>

fun truthy :: "cell \<Rightarrow> bool" where
  "truthy (Str s) = (s \<noteq> [])"
| "truthy NoneCell = False"
| "truthy (Rest l) = (l \<noteq> [])"

section \<open>The training monitor\<close>

text \<open>What the monitor prints, one value per \<^verbatim>\<open>print\<close> call; numbers are kept unformatted.\<close>

datatype out =
    Text string
  | DirectoryWarning path
  | LoadError string error
  | AgentNA string
  | AgentRow string int real real real real
  | BestPerformance string real
  | NoData string
  | History string "(int \<times> real) list"
  | FormatError string
  | SummaryRow string real real real real
  | Header path real
  | Footer nat

record training_monitor =
  results_dir :: path
  metric_files :: "(string \<times> path) list"
  summary_file :: path
  start_time :: real
  iteration :: nat

text \<open>\<^verbatim>\<open>TrainingMonitor.__init__\<close>; \<open>now\<close> is \<^verbatim>\<open>time.time()\<close>.\<close>

definition TrainingMonitor ::
  "real \<Rightarrow> filesystem \<Rightarrow> path \<Rightarrow> error + training_monitor \<times> filesystem \<times> out list" where
  "TrainingMonitor now fs dir =
     (case (if \<not> path_exists fs dir
            then (case mkdir_parents fs dir of
                    Inl e \<Rightarrow> Inl e
                  | Inr fs' \<Rightarrow> Inr (fs', [DirectoryWarning dir, Text ''Creating directory...'']))
            else Inr (fs, [])) of
        Inl e \<Rightarrow> Inl e
      | Inr (fs', printed) \<Rightarrow>
          Inr (\<lparr>results_dir = dir,
                metric_files = [(''PPO'', dir @ [''PPO_metrics.csv'']),
                                (''SAC'', dir @ [''SAC_metrics.csv'']),
                                (''TD3'', dir @ [''TD3_metrics.csv'']),
                                (''Random'', dir @ [''Random_metrics.csv''])],
                summary_file = dir @ [''summary.csv''],
                start_time = now,
                iteration = 0\<rparr>, fs', printed))"

definition check_files_exist :: "training_monitor \<Rightarrow> filesystem \<Rightarrow> (string \<times> bool) list" where
  "check_files_exist m fs = map (\<lambda>(agent, filepath). (agent, path_exists fs filepath)) (metric_files m)"

text \<open>
  The body of \<^verbatim>\<open>load_metrics\<close> once the path is known: the \<^verbatim>\<open>exists\<close> test, the guarded
  read, and the \<^verbatim>\<open>return None\<close> every other way out falls through to. The result is what
  was printed and what was returned.
\<close>

definition read_table :: "filesystem \<Rightarrow> string \<Rightarrow> path \<Rightarrow> out list \<times> row list option" where
  "read_table fs agent_name filepath =
     (if path_exists fs filepath
      then (case read_text fs filepath of
              Inl e \<Rightarrow> ([LoadError agent_name e], None)
            | Inr text \<Rightarrow>
                (case DictReader text of
                   Inl e \<Rightarrow> ([LoadError agent_name e], None)
                 | Inr data \<Rightarrow> if length data > 0 then ([], Some data) else ([], None)))
      else ([], None))"

definition load_metrics ::
  "training_monitor \<Rightarrow> filesystem \<Rightarrow> string \<Rightarrow> out list \<times> row list option" where
  "load_metrics m fs agent_name =
     (case map_of (metric_files m) agent_name of
        None \<Rightarrow> ([], None)
      | Some filepath \<Rightarrow> read_table fs agent_name filepath)"

definition load_summary :: "training_monitor \<Rightarrow> filesystem \<Rightarrow> row list option" where
  "load_summary m fs =
     (if path_exists fs (summary_file m)
      then (case read_text fs (summary_file m) of
              Inl e \<Rightarrow> None
            | Inr text \<Rightarrow> (case DictReader text of Inl e \<Rightarrow> None | Inr data \<Rightarrow> Some data))
      else None)"

record latest_metrics =
  round :: int
  accuracy :: real
  reward :: real

text \<open>\<^verbatim>\<open>float(latest.get(key, 0))\<close>: the default is a number already.\<close>

definition get_float :: "row \<Rightarrow> string \<Rightarrow> error + real" where
  "get_float r key = (case r (Some key) of None \<Rightarrow> Inr 0 | Some c \<Rightarrow> float_of_cell c)"

definition get_latest_metrics :: "row list option \<Rightarrow> error + latest_metrics" where
  "get_latest_metrics data =
     (case data of
        None \<Rightarrow> Inr \<lparr>round = 0, accuracy = 0, reward = 0\<rparr>
      | Some rows \<Rightarrow>
          if length rows = 0 then Inr \<lparr>round = 0, accuracy = 0, reward = 0\<rparr>
          else (let latest = last rows
                in case get_float latest ''round'' of
                     Inl e \<Rightarrow> Inl e
                   | Inr rnd \<Rightarrow>
                       (case get_float latest ''accuracy'' of
                          Inl e \<Rightarrow> Inl e
                        | Inr acc \<Rightarrow>
                            (case get_float latest ''reward'' of
                               Inl e \<Rightarrow> Inl e
                             | Inr rew \<Rightarrow>
                                 Inr \<lparr>round = int_of_float rnd, accuracy = acc, reward = rew\<rparr>))))"

record statistics =
  mean :: real
  std :: real
  max_value :: real
  min_value :: real

definition zero_statistics :: statistics where
  "zero_statistics = \<lparr>mean = 0, std = 0, max_value = 0, min_value = 0\<rparr>"

text \<open>
  The list comprehension of \<^verbatim>\<open>get_statistics\<close>: rows in order, those with the column
  present and true are converted, and the first conversion that raises ends it.
\<close>

fun column_values :: "row list \<Rightarrow> string \<Rightarrow> error + real list" where
  "column_values [] column = Inr []"
| "column_values (r # rs) column =
     (case r (Some column) of
        None \<Rightarrow> column_values rs column
      | Some c \<Rightarrow>
          if truthy c
          then (case float_of_cell c of
                  Inl e \<Rightarrow> Inl e
                | Inr x \<Rightarrow>
                    (case column_values rs column of
                       Inl e \<Rightarrow> Inl e
                     | Inr xs \<Rightarrow> Inr (x # xs)))
          else column_values rs column)"

text \<open>\<^verbatim>\<open>max(values)\<close> and \<^verbatim>\<open>min(values)\<close> on a list that is not empty.\<close>

definition py_max :: "real list \<Rightarrow> real" where
  "py_max xs = foldl max (hd xs) (tl xs)"

definition py_min :: "real list \<Rightarrow> real" where
  "py_min xs = foldl min (hd xs) (tl xs)"

definition get_statistics :: "row list option \<Rightarrow> string \<Rightarrow> statistics" where
  "get_statistics data column =
     (case data of
        None \<Rightarrow> zero_statistics
      | Some rows \<Rightarrow>
          if length rows = 0 then zero_statistics
          else (case column_values rows column of
                  Inl e \<Rightarrow> zero_statistics
                | Inr values \<Rightarrow>
                    if length values = 0 then zero_statistics
                    else (let mean_val = sum_list values / real (length values);
                              variance = sum_list (map (\<lambda>x. (x - mean_val) ^ 2) values)
                                           / real (length values);
                              std_val = sqrt variance
                          in \<lparr>mean = mean_val, std = std_val,
                              max_value = py_max values, min_value = py_min values\<rparr>)))"

text \<open>
  \<^verbatim>\<open>display_training_progress\<close>. \<^verbatim>\<open>all_metrics\<close> is a Python dictionary, which keeps
  its keys in the order they were first stored; \<^verbatim>\<open>max(keys, key=...)\<close> walks them in that
  order and replaces its candidate only by a strictly greater one.
\<close>

type_synonym all_metrics = "(string \<times> latest_metrics \<times> statistics) list"

definition dict_set :: "('k \<times> 'v) list \<Rightarrow> 'k \<Rightarrow> 'v \<Rightarrow> ('k \<times> 'v) list" where
  "dict_set d k v =
     (if k \<in> set (map fst d) then map (\<lambda>(k', v'). if k' = k then (k', v) else (k', v')) d
      else d @ [(k, v)])"

definition py_max_key :: "('a \<Rightarrow> real) \<Rightarrow> 'a list \<Rightarrow> 'a" where
  "py_max_key key xs = foldl (\<lambda>best x. if key x > key best then x else best) (hd xs) (tl xs)"

text \<open>
  The key function of that \<^verbatim>\<open>max\<close>, \<^verbatim>\<open>all_metrics[x]['latest']['accuracy']\<close>. It is
  applied to keys of the dictionary only; its value elsewhere plays no part.
\<close>

definition latest_accuracy :: "all_metrics \<Rightarrow> string \<Rightarrow> real" where
  "latest_accuracy am x = (case map_of am x of None \<Rightarrow> 0 | Some (latest, stats) \<Rightarrow> accuracy latest)"

definition best_agent :: "all_metrics \<Rightarrow> string" where
  "best_agent am = py_max_key (latest_accuracy am) (map fst am)"

definition agents :: "string list" where
  "agents = [''PPO'', ''SAC'', ''TD3'', ''Random'']"

definition ljust :: "string \<Rightarrow> nat \<Rightarrow> string" where
  "ljust s n = s @ replicate (n - length s) CHR '' ''"

definition rule_line :: "char \<Rightarrow> string" where
  "rule_line c = replicate 90 c"

definition table_header :: string where
  "table_header = ljust ''Agent'' 10 @ '' '' @ ljust ''Round'' 8 @ '' '' @
     ljust ''Latest Acc'' 12 @ '' '' @ ljust ''Mean Acc'' 12 @ '' '' @
     ljust ''Best Acc'' 12 @ '' '' @ ljust ''Latest Reward'' 15"

fun progress_loop ::
  "training_monitor \<Rightarrow> filesystem \<Rightarrow> (string \<times> bool) list \<Rightarrow> string list \<Rightarrow>
     all_metrics \<Rightarrow> out list \<Rightarrow> error + all_metrics \<times> out list" where
  "progress_loop m fs available [] am printed = Inr (am, printed)"
| "progress_loop m fs available (agent # rest) am printed =
     (if \<not> (case map_of available agent of None \<Rightarrow> False | Some b \<Rightarrow> b)
      then progress_loop m fs available rest am (printed @ [AgentNA agent])
      else (case load_metrics m fs agent of
              (warned, None) \<Rightarrow>
                progress_loop m fs available rest am (printed @ warned @ [AgentNA agent])
            | (warned, Some df) \<Rightarrow>
                if length df = 0
                then progress_loop m fs available rest am (printed @ warned @ [AgentNA agent])
                else (case get_latest_metrics (Some df) of
                        Inl e \<Rightarrow> Inl e
                      | Inr latest \<Rightarrow>
                          (let stats = get_statistics (Some df) ''accuracy''
                           in progress_loop m fs available rest
                                (dict_set am agent (latest, stats))
                                (printed @ warned @
                                 [AgentRow agent (round latest) (accuracy latest) (mean stats)
                                    (max_value stats) (reward latest)])))))"

definition display_training_progress ::
  "training_monitor \<Rightarrow> filesystem \<Rightarrow> error + out list" where
  "display_training_progress m fs =
     (let printed = [Text (LF # ''TRAINING PROGRESS''), Text (rule_line CHR ''-'')];
          available = check_files_exist m fs
      in if \<not> list_ex snd available
         then Inr (printed @ [Text ''No training data found. Waiting for training to start...''])
         else (case progress_loop m fs available agents []
                      (printed @ [Text table_header, Text (rule_line CHR ''-'')]) of
                 Inl e \<Rightarrow> Inl e
               | Inr (am, printed') \<Rightarrow>
                   if am \<noteq> []
                   then (let best = best_agent am
                         in Inr (printed' @ [Text (LF # rule_line CHR ''-''),
                                            BestPerformance best (latest_accuracy am best)]))
                   else Inr printed'))"

text \<open>
  \<^verbatim>\<open>display_recent_history\<close>: the \<^verbatim>\<open>try\<close> around the formatting turns any error of a
  conversion into the line \<^verbatim>\<open>Data format error\<close>.
\<close>

fun history_tokens :: "row list \<Rightarrow> error + (int \<times> real) list" where
  "history_tokens [] = Inr []"
| "history_tokens (r # rs) =
     (case (r (Some ''round''), r (Some ''accuracy'')) of
        (Some c_round, Some c_acc) \<Rightarrow>
          (case float_of_cell c_round of
             Inl e \<Rightarrow> Inl e
           | Inr rnd \<Rightarrow>
               (case float_of_cell c_acc of
                  Inl e \<Rightarrow> Inl e
                | Inr acc \<Rightarrow>
                    (case history_tokens rs of
                       Inl e \<Rightarrow> Inl e
                     | Inr ts \<Rightarrow> Inr ((int_of_float rnd, acc) # ts))))
      | _ \<Rightarrow> history_tokens rs)"

definition history_line :: "training_monitor \<Rightarrow> filesystem \<Rightarrow> string \<Rightarrow> out list" where
  "history_line m fs agent =
     (case load_metrics m fs agent of
        (warned, None) \<Rightarrow> warned @ [NoData agent]
      | (warned, Some data) \<Rightarrow>
          if length data = 0 then warned @ [NoData agent]
          else (let recent = (if length data \<ge> 5 then drop (length data - 5) data else data)
                in case history_tokens recent of
                     Inl e \<Rightarrow> warned @ [FormatError agent]
                   | Inr ts \<Rightarrow> warned @ [History agent ts]))"

definition display_recent_history :: "training_monitor \<Rightarrow> filesystem \<Rightarrow> out list" where
  "display_recent_history m fs =
     [Text (LF # rule_line CHR ''=''), Text ''RECENT ACCURACY HISTORY (Last 5 Rounds)'',
      Text (rule_line CHR ''-'')] @ concat (map (history_line m fs) agents)"

text \<open>
  \<^verbatim>\<open>display_summary\<close>: four conversions, then the formatted line, where a column name
  \<^verbatim>\<open>agent\<close> whose value is \<^verbatim>\<open>None\<close> cannot take the width in \<^verbatim>\<open>{agent:<10}\<close>.
\<close>

definition summary_line :: "row \<Rightarrow> error + out" where
  "summary_line r =
     (case get_float r ''final_accuracy'' of
        Inl e \<Rightarrow> Inl e
      | Inr final_acc \<Rightarrow>
     (case get_float r ''mean_accuracy'' of
        Inl e \<Rightarrow> Inl e
      | Inr mean_acc \<Rightarrow>
     (case get_float r ''std_accuracy'' of
        Inl e \<Rightarrow> Inl e
      | Inr std_acc \<Rightarrow>
     (case get_float r ''training_time_seconds'' of
        Inl e \<Rightarrow> Inl e
      | Inr time_taken \<Rightarrow>
     (case r (Some ''agent'') of
        None \<Rightarrow> Inr (SummaryRow ''Unknown'' final_acc mean_acc std_acc time_taken)
      | Some (Str agent) \<Rightarrow> Inr (SummaryRow agent final_acc mean_acc std_acc time_taken)
      | Some _ \<Rightarrow> Inl TypeError)))))"

fun summary_lines :: "row list \<Rightarrow> error + out list" where
  "summary_lines [] = Inr []"
| "summary_lines (r # rs) =
     (case summary_line r of
        Inl e \<Rightarrow> Inl e
      | Inr l \<Rightarrow> (case summary_lines rs of Inl e \<Rightarrow> Inl e | Inr ls \<Rightarrow> Inr (l # ls)))"

definition display_summary :: "training_monitor \<Rightarrow> filesystem \<Rightarrow> error + out list" where
  "display_summary m fs =
     (case load_summary m fs of
        None \<Rightarrow> Inr []
      | Some summary_data \<Rightarrow>
          if length summary_data > 0
          then (case summary_lines summary_data of
                  Inl e \<Rightarrow> Inl e
                | Inr ls \<Rightarrow>
                    Inr ([Text (LF # rule_line CHR ''=''), Text ''FINAL SUMMARY STATISTICS'',
                          Text (rule_line CHR ''-'')] @ ls))
          else Inr [])"

text \<open>
  One pass of the loop of \<^verbatim>\<open>run\<close>, up to the \<^verbatim>\<open>sleep\<close>: the header block (one value
  here, with the elapsed time), the three displays and the footer. \<^verbatim>\<open>run\<close> catches
  \<^verbatim>\<open>KeyboardInterrupt\<close> only, so any other error of a display ends the monitor.
\<close>

definition display_header :: "real \<Rightarrow> training_monitor \<Rightarrow> out list" where
  "display_header now m = [Header (results_dir m) (now - start_time m)]"

definition cycle ::
  "real \<Rightarrow> training_monitor \<Rightarrow> filesystem \<Rightarrow> error + training_monitor \<times> out list" where
  "cycle now m fs =
     (let m' = m\<lparr>iteration := iteration m + 1\<rparr>;
          header = display_header now m'
      in case display_training_progress m' fs of
           Inl e \<Rightarrow> Inl e
         | Inr progress \<Rightarrow>
             (let history = display_recent_history m' fs
              in case display_summary m' fs of
                   Inl e \<Rightarrow> Inl e
                 | Inr summary \<Rightarrow>
                     Inr (m', header @ progress @ history @ summary @ [Footer (iteration m')])))"

section \<open>Plain cells and worked examples\<close>

text \<open>
  A cell is plain when the writer stores it unquoted and the reader accepts its length:
  it holds no comma, quote, carriage return or line feed and is no longer than the field
  limit. ISO timestamps and the decimal text of numbers of ordinary size are plain. A plain
  row has at least two cells, as every row of the two tables has.
\<close>

definition plain :: "string \<Rightarrow> bool" where
  "plain s = (\<not> needs_quote s \<and> length s \<le> field_limit)"

definition plain_row :: "pyval list \<Rightarrow> bool" where
  "plain_row r = (length r \<ge> 2 \<and> list_all (\<lambda>v. plain (py_str v)) r)"

text \<open>
  A runtime for the examples. Its \<^verbatim>\<open>:.4f\<close> pads the fraction of a short decimal with
  zeros, which is exact on every float the examples use.
\<close>

definition example_format_4f :: "pyfloat \<Rightarrow> string" where
  "example_format_4f x =
     takeWhile (\<lambda>c. c \<noteq> CHR ''.'') (repr x) @ ''.'' @
     take 4 (drop 1 (dropWhile (\<lambda>c. c \<noteq> CHR ''.'') (repr x)) @ ''0000'')"

definition example_runtime :: runtime where
  "example_runtime =
     \<lparr>now_iso = ''2025-03-01T12:00:00.000001'', now_event = ''2025-03-01 12:00:00'',
      now_compact = ''20250301_120000'', format_4f = example_format_4f\<rparr>"

definition empty_fs :: filesystem where
  "empty_fs = \<lparr>dirs = {}, files = Map.empty\<rparr>"

text \<open>The logger and the file system right after \<^verbatim>\<open>TrainingLogger('drl_outputs', 'test')\<close>.\<close>

definition example_logger :: training_logger where
  "example_logger =
     \<lparr>output_dir = [''drl_outputs''], experiment_name = ''test'',
      metrics_file = [''drl_outputs'', ''metrics.csv''],
      actions_file = [''drl_outputs'', ''actions.csv''],
      events_file = [''drl_outputs'', ''training_log.txt''],
      config_file = [''drl_outputs'', ''config.json''],
      metrics_buffer = [], actions_buffer = [],
      events_buffer = [''[2025-03-01 12:00:00] [INFO] Logger initialized'' @ [LF]]\<rparr>"

definition example_fs :: filesystem where
  "example_fs =
     \<lparr>dirs = {[''drl_outputs'']},
      files = [[''drl_outputs'', ''metrics.csv''] \<mapsto> writerow metrics_header,
               [''drl_outputs'', ''actions.csv''] \<mapsto> writerow actions_header,
               [''drl_outputs'', ''training_log.txt''] \<mapsto>
                 ''[2025-03-01 12:00:00] [INFO] Logger initialized'' @ [LF]]\<rparr>"

section \<open>Words of the specification about \<^verbatim>\<open>statistics\<close>\<close>

text \<open>
  A row is malformed for a column when the column is present and true and \<^verbatim>\<open>float\<close>
  raises on it. The valid values of a column are the numbers of the rows where the column
  is present, not empty, and a number: what the specification calls the numeric values of
  the field present across rows.
\<close>

definition malformed :: "string \<Rightarrow> row \<Rightarrow> bool" where
  "malformed column r =
     (case r (Some column) of None \<Rightarrow> False | Some c \<Rightarrow> truthy c \<and> isl (float_of_cell c))"

fun valid_values :: "row list \<Rightarrow> string \<Rightarrow> real list" where
  "valid_values [] column = []"
| "valid_values (r # rs) column =
     (case r (Some column) of
        Some (Str s) \<Rightarrow>
          (if s = [] then valid_values rs column
           else (case float_of_string s of
                   None \<Rightarrow> valid_values rs column
                 | Some x \<Rightarrow> x # valid_values rs column))
      | _ \<Rightarrow> valid_values rs column)"

text \<open>The columns of the metrics table, as the monitor's reader finds them in the header.\<close>

definition metrics_columns :: "string list" where
  "metrics_columns = [''timestamp'', ''round'', ''client_id'', ''mean_reward'',
      ''std_reward'', ''episode_length'', ''loss'', ''global_reward'']"

text \<open>
  The two data rows of the scenario of the specification, as the reader returns them:
  \<^verbatim>\<open>log_round(1, 0, 0.42, loss=0.05)\<close> and \<^verbatim>\<open>log_round(2, 0, 0.55, loss=0.03)\<close>.
\<close>

definition example_rows :: "row list" where
  "example_rows =
     [dict_row metrics_columns
        [''2025-03-01T12:00:00.000001'', ''1'', ''0'', ''0.42'', ''0.0'', ''0'', ''0.05'', ''''],
      dict_row metrics_columns
        [''2025-03-01T12:00:02.000001'', ''2'', ''0'', ''0.55'', ''0.0'', ''0'', ''0.03'', '''']]"

section \<open>States in which the logger can write\<close>

text \<open>
  A directory that exists and is reached through directories only, and a logger whose
  metrics table and event log are entries of such an output directory and not directories
  themselves: the state the constructor leaves behind, and the one \<^verbatim>\<open>log_round\<close> needs
  for its two appends.
\<close>

definition writable_dir :: "filesystem \<Rightarrow> path \<Rightarrow> bool" where
  "writable_dir fs d = (is_dir fs d \<and> \<not> through_file fs d)"

definition logger_ready :: "training_logger \<Rightarrow> filesystem \<Rightarrow> bool" where
  "logger_ready lg fs =
     (writable_dir fs (output_dir lg) \<and>
      metrics_file lg = output_dir lg @ [''metrics.csv''] \<and>
      events_file lg = output_dir lg @ [''training_log.txt''] \<and>
      \<not> is_dir fs (metrics_file lg) \<and> \<not> is_dir fs (events_file lg))"

text \<open>
  The scenario of the specification: a new logger, \<^verbatim>\<open>log_round(1, 0, 0.42, loss=0.05)\<close>,
  \<^verbatim>\<open>log_round(2, 0, 0.55, loss=0.03)\<close> with the defaults of the source for the other
  arguments, then the metrics file read back and \<^verbatim>\<open>get_latest_metrics\<close> on its rows.
\<close>

definition scenario_latest ::
  "runtime \<Rightarrow> runtime \<Rightarrow> runtime \<Rightarrow> filesystem \<Rightarrow> path \<Rightarrow> error + latest_metrics" where
  "scenario_latest rt0 rt1 rt2 fs dir =
     (case TrainingLogger rt0 fs dir None of
        Inl e \<Rightarrow> Inl e
      | Inr (lg0, fs0) \<Rightarrow>
          (case log_round rt1 lg0 fs0 1 0 (Float ''0.42'') (Float ''0.0'') 0 (Float ''0.05'') None of
             Inl e \<Rightarrow> Inl e
           | Inr (lg1, fs1) \<Rightarrow>
               (case log_round rt2 lg1 fs1 2 0 (Float ''0.55'') (Float ''0.0'') 0 (Float ''0.03'') None of
                  Inl e \<Rightarrow> Inl e
                | Inr (lg2, fs2) \<Rightarrow>
                    get_latest_metrics (snd (read_table fs2 ''metrics'' (metrics_file lg2))))))"

text \<open>
  A monitor on the directory \<^verbatim>\<open>results\<close>, and a file system where the table of the agent
  PPO holds its header row and nothing else.
\<close>

definition example_monitor :: training_monitor where
  "example_monitor =
     \<lparr>results_dir = [''results''],
      metric_files = [(''PPO'', [''results'', ''PPO_metrics.csv'']),
                      (''SAC'', [''results'', ''SAC_metrics.csv'']),
                      (''TD3'', [''results'', ''TD3_metrics.csv'']),
                      (''Random'', [''results'', ''Random_metrics.csv''])],
      summary_file = [''results'', ''summary.csv''],
      start_time = 0, iteration = 0\<rparr>"

definition header_only_fs :: filesystem where
  "header_only_fs =
     \<lparr>dirs = {[''results'']},
      files = [[''results'', ''PPO_metrics.csv''] \<mapsto> ''round,accuracy,reward'' @ [LF]]\<rparr>"

text \<open>
  A file system where the table of PPO has one data row whose round is not a number, and
  dictionaries of latest metrics for the examples of the best performer.
\<close>

definition malformed_round_fs :: filesystem where
  "malformed_round_fs =
     \<lparr>dirs = {[''results'']},
      files = [[''results'', ''PPO_metrics.csv''] \<mapsto>
                 ''round,accuracy,reward'' @ [LF] @ ''abc,0.5,0.1'' @ [LF]]\<rparr>"

definition example_metrics :: all_metrics where
  "example_metrics =
     [(''PPO'', \<lparr>round = 7, accuracy = 1 / 2, reward = 3\<rparr>, zero_statistics),
      (''SAC'', \<lparr>round = 7, accuracy = 4 / 5, reward = 1\<rparr>, zero_statistics),
      (''Random'', \<lparr>round = 6, accuracy = 4 / 5, reward = 2\<rparr>, zero_statistics)]"

section \<open>The csv writer and reader agree on plain rows\<close>

lemma needs_quote_iff: "needs_quote s \<longleftrightarrow> (\<exists>c\<in>set s. c = delimiter \<or> c = quotechar \<or> c = CR \<or> c = LF)"
  by (simp add: needs_quote_def list_ex_iff)

lemma join_field_plain: "\<not> needs_quote f \<Longrightarrow> join_field f = f"
  by (simp add: join_field_def)

lemma universal_newlines_Cons: "c \<noteq> CR \<Longrightarrow> universal_newlines (c # u) = c # universal_newlines u"
  by (cases u) simp_all

lemma universal_newlines_line:
  "CR \<notin> set s \<Longrightarrow> universal_newlines (s @ CR # LF # t) = s @ LF # universal_newlines t"
  by (induction s) (auto simp: universal_newlines_Cons)

lemma split_lines_line:
  "LF \<notin> set s \<Longrightarrow> split_lines acc (s @ LF # t) = (acc @ s @ [LF]) # split_lines [] t"
  by (induction s arbitrary: acc) auto

lemma file_lines_line:
  assumes "CR \<notin> set s" "LF \<notin> set s"
  shows "file_lines (s @ CR # LF # t) = (s @ [LF]) # file_lines t"
  using assms by (simp add: file_lines_def universal_newlines_line split_lines_line)

lemma feed_in_field:
  "\<not> needs_quote f \<Longrightarrow> length (field p) + length f \<le> field_limit \<Longrightarrow> state p = IN_FIELD \<Longrightarrow>
   feed p (f @ t) = feed (p\<lparr>field := field p @ f\<rparr>) t"
proof (induction f arbitrary: p)
  case Nil
  then show ?case by simp
next
  case (Cons c f)
  from Cons.prems have c: "c \<noteq> delimiter" "c \<noteq> quotechar" "c \<noteq> CR" "c \<noteq> LF" and nq: "\<not> needs_quote f"
    by (auto simp: needs_quote_iff)
  have step: "parse_process_char p (Some c) = Inr (p\<lparr>field := field p @ [c]\<rparr>)"
    using Cons.prems c by (simp add: parse_process_char.simps is_newline_def parse_add_char_def)
  have "feed (p\<lparr>field := field p @ [c]\<rparr>) (f @ t) = feed (p\<lparr>field := field p @ [c]\<rparr>\<lparr>field := field (p\<lparr>field := field p @ [c]\<rparr>) @ f\<rparr>) t"
    using Cons.prems nq by (intro Cons.IH) simp_all
  then show ?case using step by simp
qed

lemma feed_field_start:
  assumes "\<not> needs_quote f" "length f \<le> field_limit" "field p = []"
      and "state p = START_FIELD \<or> state p = START_RECORD" "f \<noteq> []"
  shows "feed p (f @ t) = feed (p\<lparr>state := IN_FIELD, field := f\<rparr>) t"
proof -
  obtain c f' where f: "f = c # f'" using assms(5) by (cases f) auto
  from assms f have c: "c \<noteq> delimiter" "c \<noteq> quotechar" "c \<noteq> CR" "c \<noteq> LF" and nq: "\<not> needs_quote f'"
    by (auto simp: needs_quote_iff)
  have step: "parse_process_char p (Some c) = Inr (p\<lparr>field := [c], state := IN_FIELD\<rparr>)"
    using assms c by (auto simp: parse_process_char.simps start_field_def is_newline_def parse_add_char_def field_limit_def)
  have "feed (p\<lparr>field := [c], state := IN_FIELD\<rparr>) (f' @ t) = feed (p\<lparr>field := [c], state := IN_FIELD\<rparr>\<lparr>field := field (p\<lparr>field := [c], state := IN_FIELD\<rparr>) @ f'\<rparr>) t"
    using assms f nq by (intro feed_in_field) simp_all
  then show ?thesis using step f by simp
qed

lemma feed_field_delim:
  assumes "\<not> needs_quote f" "length f \<le> field_limit" "field p = []"
      and "state p = START_FIELD \<or> state p = START_RECORD"
  shows "feed p (f @ delimiter # t) =
         feed \<lparr>state = START_FIELD, field = [], row_fields = row_fields p @ [f]\<rparr> t"
proof (cases "f = []")
  case True
  then show ?thesis using assms
    by (cases p) (auto simp: parse_process_char.simps start_field_def is_newline_def parse_save_field_def)
next
  case False
  then show ?thesis using assms
    by (cases p) (simp add: feed_field_start parse_process_char.simps is_newline_def parse_save_field_def)
qed

lemma feed_field_end:
  assumes "\<not> needs_quote f" "length f \<le> field_limit" "field p = []"
      and "state p = START_FIELD \<or> (state p = START_RECORD \<and> f \<noteq> [])"
  shows "feed p (f @ [LF]) = Inr \<lparr>state = START_RECORD, field = [], row_fields = row_fields p @ [f]\<rparr>"
proof (cases "f = []")
  case True
  then show ?thesis using assms
    by (cases p) (auto simp: parse_process_char.simps start_field_def is_newline_def parse_save_field_def after_newline_def)
next
  case False
  then show ?thesis using assms
    by (cases p) (auto simp add: feed_field_start parse_process_char.simps is_newline_def parse_save_field_def after_newline_def)
qed

lemma feed_fields:
  assumes "list_all plain fs" "fs \<noteq> []" "field p = []" "state p = START_FIELD"
  shows "feed p (join_fields fs @ [LF]) = Inr \<lparr>state = START_RECORD, field = [], row_fields = row_fields p @ fs\<rparr>"
  using assms
proof (induction fs arbitrary: p rule: join_fields.induct)
  case 1
  then show ?case by simp
next
  case (2 f)
  then show ?case by (simp add: plain_def join_field_plain feed_field_end)
next
  case (3 f g gs)
  let ?q = "\<lparr>state = START_FIELD, field = [], row_fields = row_fields p @ [f]\<rparr>"
  have "feed ?q (join_fields (g # gs) @ [LF])
        = Inr \<lparr>state = START_RECORD, field = [], row_fields = row_fields ?q @ g # gs\<rparr>"
    using 3 by (intro "3.IH") simp_all
  then show ?case using 3 by (simp add: plain_def join_field_plain feed_field_delim)
qed

lemma feed_row:
  assumes "list_all plain fs" "length fs \<ge> 2"
  shows "feed parse_reset (join_fields fs @ [LF]) = Inr \<lparr>state = START_RECORD, field = [], row_fields = fs\<rparr>"
proof -
  obtain f g gs where fs: "fs = f # g # gs" using assms(2)
    by (cases fs; cases "tl fs") auto
  let ?q = "\<lparr>state = START_FIELD, field = [], row_fields = [f]\<rparr>"
  have "feed parse_reset (join_fields fs @ [LF]) = feed ?q (join_fields (g # gs) @ [LF])"
    using assms fs by (simp add: plain_def join_field_plain feed_field_delim parse_reset_def)
  also have "\<dots> = Inr \<lparr>state = START_RECORD, field = [], row_fields = row_fields ?q @ g # gs\<rparr>"
    using assms fs by (intro feed_fields) simp_all
  finally show ?thesis using fs by simp
qed

lemma join_fields_no_newline:
  "list_all plain fs \<Longrightarrow> CR \<notin> set (join_fields fs) \<and> LF \<notin> set (join_fields fs)"
  by (induction fs rule: join_fields.induct) (auto simp: plain_def join_field_plain needs_quote_iff)

lemma join_fields_nonempty: "length fs \<ge> 2 \<Longrightarrow> join_fields fs \<noteq> []"
  by (cases fs; cases "tl fs") auto

lemma writerow_plain:
  "plain_row r \<Longrightarrow> writerow r = join_fields (map py_str r) @ [CR, LF]"
  using join_fields_nonempty[of "map py_str r"] by (simp add: writerow_def plain_row_def Let_def)

lemma csv_reader_rows:
  "list_all plain_row rows \<Longrightarrow> csv_reader (concat (map writerow rows)) = Inr (map (map py_str) rows)"
proof (induction rows)
  case Nil
  then show ?case by (simp add: csv_reader_def file_lines_def parse_reset_def)
next
  case (Cons r rows)
  then have pr: "plain_row r" and IH: "csv_reader (concat (map writerow rows)) = Inr (map (map py_str) rows)"
    by simp_all
  from pr have pl: "list_all plain (map py_str r)" and len: "length (map py_str r) \<ge> 2"
    by (simp_all add: plain_row_def list_all_iff)
  have lines: "file_lines (writerow r @ concat (map writerow rows)) =
        (join_fields (map py_str r) @ [LF]) # file_lines (concat (map writerow rows))"
    using join_fields_no_newline[OF pl] pr by (simp add: writerow_plain file_lines_line)
  show ?case using IH feed_row[OF pl len] by (simp add: csv_reader_def lines)
qed


section \<open>The logger\<close>

text \<open>The example logger is what the constructor builds on an empty file system.\<close>

lemma example_logger_init:
  "TrainingLogger example_runtime empty_fs [''drl_outputs''] (Some ''test'') = Inr (example_logger, example_fs)"
  by (simp add: TrainingLogger_def mkdir_parents.simps os_mkdir_def path_exists_def is_dir_def is_file_def
      through_file_def empty_fs_def init_metrics_csv_def init_actions_csv_def write_text_def open_check_def
      log_event_def append_text_def file_text_def example_runtime_def example_logger_def example_fs_def Let_def)


lemma csv_reader_row: "plain_row r \<Longrightarrow> csv_reader (writerow r) = Inr [map py_str r]"
  using csv_reader_rows[of "[r]"] by simp

lemma str_int_0: "str_int 0 = ''0''"
  by (simp add: str_int_def str_nat.simps digit_char_def)

lemma plain_zero: "plain ''0''"
  by (simp add: plain_def needs_quote_def field_limit_def)

lemma log_action_distribution_appends:
  assumes "open_check fs (actions_file lg) = None"
  shows "log_action_distribution rt lg fs round_num client_id action_counts =
         Inr (lg\<lparr>actions_buffer := actions_buffer lg @
                [[PStr (now_iso rt), PInt round_num, PInt client_id] @
                 map PInt (pad_action_counts action_counts)]\<rparr>,
              fs\<lparr>files := (files fs)(actions_file lg \<mapsto> file_text fs (actions_file lg) @
                writerow ([PStr (now_iso rt), PInt round_num, PInt client_id] @
                 map PInt (pad_action_counts action_counts)))\<rparr>)"
  using assms by (simp add: log_action_distribution_def append_text_def Let_def)

lemma plain_row_padded:
  assumes "plain_row ([PStr ts, PInt r, PInt c] @ map PInt xs)"
  shows "plain_row ([PStr ts, PInt r, PInt c] @ map PInt (xs @ replicate n 0))"
  using assms by (auto simp: plain_row_def str_int_0 plain_zero list_all_iff)

text \<open>
  C7: for every \<^verbatim>\<open>action_counts\<close> with fewer than 12 elements, \<^verbatim>\<open>log_action_distribution\<close>
  appends one row whose action part has exactly 12 entries: the input followed by zeros on
  the right. The row is appended to the actions file (read back here with the csv reader)
  and to the buffer. The call needs a file it can open, and cells the reader can take.
\<close>

theorem log_action_distribution_pads_short:
  assumes "length action_counts < 12"
      and "open_check fs (actions_file lg) = None"
      and "plain_row ([PStr (now_iso rt), PInt round_num, PInt client_id] @ map PInt action_counts)"
  shows "\<exists>lg' fs' line.
           log_action_distribution rt lg fs round_num client_id action_counts = Inr (lg', fs') \<and>
           file_text fs' (actions_file lg) = file_text fs (actions_file lg) @ line \<and>
           csv_reader line =
             Inr [[now_iso rt, str_int round_num, str_int client_id] @
                  map str_int action_counts @ replicate (12 - length action_counts) ''0''] \<and>
           length (map str_int action_counts @ replicate (12 - length action_counts) ''0'') = 12 \<and>
           actions_buffer lg' = actions_buffer lg @
             [[PStr (now_iso rt), PInt round_num, PInt client_id] @
              map PInt (action_counts @ replicate (12 - length action_counts) 0)]"
proof -
  let ?row = "[PStr (now_iso rt), PInt round_num, PInt client_id] @
              map PInt (action_counts @ replicate (12 - length action_counts) 0)"
  have pad: "pad_action_counts action_counts = action_counts @ replicate (12 - length action_counts) 0"
    using assms(1) by (simp add: pad_action_counts_def)
  have "csv_reader (writerow ?row) = Inr [map py_str ?row]"
    by (rule csv_reader_row) (rule plain_row_padded[OF assms(3)])
  then have rd: "csv_reader (writerow ?row) =
      Inr [[now_iso rt, str_int round_num, str_int client_id] @
           map str_int action_counts @ replicate (12 - length action_counts) ''0'']"
    by (simp add: str_int_0 comp_def)
  have len: "length (map str_int action_counts @ replicate (12 - length action_counts) ''0'') = 12"
    using assms(1) by simp
  show ?thesis
    using log_action_distribution_appends[OF assms(2), of rt round_num client_id action_counts] rd len
    by (simp add: pad file_text_def)
qed

text \<open>An 8-element input: the last four stored entries are zero.\<close>

theorem log_action_distribution_pads_short_witness:
  "length [5, 0, 2, 1, 0, 7, 3, 0 :: int] < 12 \<and>
   open_check example_fs (actions_file example_logger) = None \<and>
   plain_row ([PStr (now_iso example_runtime), PInt 3, PInt 1] @ map PInt [5, 0, 2, 1, 0, 7, 3, 0]) \<and>
   (\<exists>lg' fs' line.
      log_action_distribution example_runtime example_logger example_fs 3 1 [5, 0, 2, 1, 0, 7, 3, 0]
        = Inr (lg', fs') \<and>
      file_text fs' (actions_file example_logger) = file_text example_fs (actions_file example_logger) @ line \<and>
      csv_reader line =
        Inr [[''2025-03-01T12:00:00.000001'', ''3'', ''1'',
              ''5'', ''0'', ''2'', ''1'', ''0'', ''7'', ''3'', ''0'', ''0'', ''0'', ''0'', ''0'']])"
proof -
  have h1: "length [5, 0, 2, 1, 0, 7, 3, 0 :: int] < 12" by simp
  have h2: "open_check example_fs (actions_file example_logger) = None"
    by (simp add: open_check_def example_fs_def example_logger_def is_dir_def through_file_def is_file_def)
  have h3: "plain_row ([PStr (now_iso example_runtime), PInt 3, PInt 1] @ map PInt [5, 0, 2, 1, 0, 7, 3, 0])"
    by (simp add: plain_row_def plain_def needs_quote_def field_limit_def example_runtime_def
        str_int_def str_nat.simps digit_char_def)
  have s: "now_iso example_runtime = ''2025-03-01T12:00:00.000001''"
    by (simp add: example_runtime_def)
  have n: "str_int 0 = ''0''" "str_int 1 = ''1''" "str_int 2 = ''2''" "str_int 3 = ''3''"
          "str_int 5 = ''5''" "str_int 7 = ''7''"
    by (simp_all add: str_int_def str_nat.simps digit_char_def)
  have r: "replicate 4 ''0'' = [''0'', ''0'', ''0'', ''0'']"
    by (simp add: eval_nat_numeral)
  show ?thesis
    using log_action_distribution_pads_short[OF h1 h2 h3] h2 h3
    by (simp add: s n r) blast
qed

text \<open>
  C2 says that a sequence longer than 12 is rejected and no row is appended. The code has
  no such check: \<^verbatim>\<open>[0] * (12 - len(action_counts))\<close> is empty, and the 13 counts are
  written as they are.
\<close>

theorem log_action_distribution_long_counterexample:
  "log_action_distribution example_runtime example_logger example_fs 1 0
     [4, 0, 9, 2, 7, 1, 1, 3, 0, 5, 8, 6, 2] =
   Inr (example_logger\<lparr>actions_buffer :=
          [[PStr ''2025-03-01T12:00:00.000001'', PInt 1, PInt 0,
            PInt 4, PInt 0, PInt 9, PInt 2, PInt 7, PInt 1, PInt 1, PInt 3, PInt 0, PInt 5,
            PInt 8, PInt 6, PInt 2]]\<rparr>,
        example_fs\<lparr>files := (files example_fs)([''drl_outputs'', ''actions.csv''] \<mapsto>
          writerow actions_header @
          ''2025-03-01T12:00:00.000001,1,0,4,0,9,2,7,1,1,3,0,5,8,6,2'' @ [CR, LF])\<rparr>)"
proof -
  have h: "open_check example_fs (actions_file example_logger) = None"
    by (simp add: open_check_def example_fs_def example_logger_def is_dir_def through_file_def is_file_def)
  have w: "writerow [PStr ''2025-03-01T12:00:00.000001'', PInt 1, PInt 0,
            PInt 4, PInt 0, PInt 9, PInt 2, PInt 7, PInt 1, PInt 1, PInt 3, PInt 0, PInt 5,
            PInt 8, PInt 6, PInt 2] = ''2025-03-01T12:00:00.000001,1,0,4,0,9,2,7,1,1,3,0,5,8,6,2'' @ [CR, LF]"
    by (simp add: writerow_def join_field_def needs_quote_def str_int_def str_nat.simps digit_char_def)
  show ?thesis
    unfolding log_action_distribution_appends[OF h]
    by (simp add: pad_action_counts_def w example_runtime_def)
       (simp add: example_logger_def example_fs_def file_text_def)
qed

text \<open>
  C2, as the code has it: a sequence longer than 12 is not rejected. No error is raised;
  the call returns normally, and one row is appended to the actions file (one record for
  the csv reader) and to the buffer.
\<close>

theorem log_action_distribution_accepts_long:
  assumes "length action_counts > 12"
      and "open_check fs (actions_file lg) = None"
      and "plain_row ([PStr (now_iso rt), PInt round_num, PInt client_id] @ map PInt action_counts)"
  shows "\<exists>lg' fs' line cells row.
           log_action_distribution rt lg fs round_num client_id action_counts = Inr (lg', fs') \<and>
           file_text fs' (actions_file lg) = file_text fs (actions_file lg) @ line \<and>
           csv_reader line = Inr [cells] \<and>
           actions_buffer lg' = actions_buffer lg @ [row]"
proof -
  let ?row = "[PStr (now_iso rt), PInt round_num, PInt client_id] @ map PInt action_counts"
  have pad: "pad_action_counts action_counts = action_counts"
    using assms(1) by (simp add: pad_action_counts_def)
  have rd: "csv_reader (writerow ?row) = Inr [map py_str ?row]"
    by (rule csv_reader_row) (rule assms(3))
  have "log_action_distribution rt lg fs round_num client_id action_counts =
        Inr (lg\<lparr>actions_buffer := actions_buffer lg @ [?row]\<rparr>,
             fs\<lparr>files := (files fs)(actions_file lg \<mapsto>
                  file_text fs (actions_file lg) @ writerow ?row)\<rparr>)"
    using log_action_distribution_appends[OF assms(2), of rt round_num client_id action_counts]
    by (simp add: pad)
  moreover have "file_text (fs\<lparr>files := (files fs)(actions_file lg \<mapsto>
                  file_text fs (actions_file lg) @ writerow ?row)\<rparr>) (actions_file lg) =
                 file_text fs (actions_file lg) @ writerow ?row"
    by (simp add: file_text_def)
  moreover have "actions_buffer (lg\<lparr>actions_buffer := actions_buffer lg @ [?row]\<rparr>) =
                 actions_buffer lg @ [?row]" by simp
  ultimately show ?thesis using rd by blast
qed

theorem log_action_distribution_accepts_long_witness:
  "length [12, 0, 0, 31, 2, 0, 5, 40, 7, 0, 1, 22, 3, 9 :: int] > 12 \<and>
   open_check example_fs (actions_file example_logger) = None \<and>
   plain_row ([PStr (now_iso example_runtime), PInt 1, PInt 0] @
              map PInt [12, 0, 0, 31, 2, 0, 5, 40, 7, 0, 1, 22, 3, 9]) \<and>
   (\<exists>lg' fs' line cells row.
      log_action_distribution example_runtime example_logger example_fs 1 0
        [12, 0, 0, 31, 2, 0, 5, 40, 7, 0, 1, 22, 3, 9] = Inr (lg', fs') \<and>
      file_text fs' (actions_file example_logger) =
        file_text example_fs (actions_file example_logger) @ line \<and>
      csv_reader line = Inr [cells] \<and>
      actions_buffer lg' = actions_buffer example_logger @ [row])"
proof -
  have h1: "length [12, 0, 0, 31, 2, 0, 5, 40, 7, 0, 1, 22, 3, 9 :: int] > 12" by simp
  have h2: "open_check example_fs (actions_file example_logger) = None"
    by (simp add: open_check_def example_fs_def example_logger_def is_dir_def through_file_def is_file_def)
  have h3: "plain_row ([PStr (now_iso example_runtime), PInt 1, PInt 0] @
              map PInt [12, 0, 0, 31, 2, 0, 5, 40, 7, 0, 1, 22, 3, 9])"
    by (simp add: plain_row_def plain_def needs_quote_def field_limit_def example_runtime_def
        str_int_def str_nat.simps digit_char_def)
  from log_action_distribution_accepts_long[OF h1 h2 h3] h1 h2 h3
  show ?thesis by blast
qed

section \<open>Statistics\<close>

lemma column_values_valid:
  "\<not> list_ex (malformed column) rows \<Longrightarrow> column_values rows column = Inr (valid_values rows column)"
proof (induction rows)
  case Nil
  then show ?case by simp
next
  case (Cons r rows)
  then have IH: "column_values rows column = Inr (valid_values rows column)"
    and ok: "\<not> malformed column r" by simp_all
  show ?case
  proof (cases "r (Some column)")
    case None
    then show ?thesis using IH by simp
  next
    case (Some c)
    then show ?thesis using IH ok
      by (cases c) (auto simp: malformed_def split: option.splits)
  qed
qed

lemma column_values_malformed:
  "list_ex (malformed column) rows \<Longrightarrow> isl (column_values rows column)"
proof (induction rows)
  case Nil
  then show ?case by simp
next
  case (Cons r rows)
  show ?case
  proof (cases "malformed column r")
    case True
    then show ?thesis
      by (auto simp: malformed_def isl_def split: option.splits)
  next
    case False
    with Cons have "isl (column_values rows column)" by simp
    then show ?thesis
      by (auto simp: isl_def split: option.splits sum.splits)
  qed
qed

lemma column_values_sublist:
  "column_values rows column = Inr xs \<Longrightarrow> xs = valid_values rows column"
proof (induction rows arbitrary: xs)
  case Nil
  then show ?case by simp
next
  case (Cons r rows)
  show ?case
  proof (cases "r (Some column)")
    case None
    then show ?thesis using Cons by simp
  next
    case (Some c)
    then show ?thesis using Cons
      by (cases c) (auto split: option.splits sum.splits if_splits)
  qed
qed

lemma py_max_Max: "xs \<noteq> [] \<Longrightarrow> py_max xs = Max (set xs)"
proof -
  assume "xs \<noteq> []"
  then obtain y ys where xs: "xs = y # ys" by (cases xs) auto
  have a: "py_max xs = foldl max y ys" by (simp add: xs py_max_def)
  have b: "foldl max y ys = fold max ys y"
    by (simp add: foldl_conv_fold max.commute)
  have c: "Max (set xs) = fold max ys y" unfolding xs by (rule Max.set_eq_fold)
  show ?thesis using a b c by simp
qed

lemma py_min_Min: "xs \<noteq> [] \<Longrightarrow> py_min xs = Min (set xs)"
proof -
  assume "xs \<noteq> []"
  then obtain y ys where xs: "xs = y # ys" by (cases xs) auto
  have a: "py_min xs = foldl min y ys" by (simp add: xs py_min_def)
  have b: "foldl min y ys = fold min ys y"
    by (simp add: foldl_conv_fold min.commute)
  have c: "Min (set xs) = fold min ys y" unfolding xs by (rule Min.set_eq_fold)
  show ?thesis using a b c by simp
qed

lemma get_statistics_malformed:
  "list_ex (malformed column) rows \<Longrightarrow> get_statistics (Some rows) column = zero_statistics"
  using column_values_malformed[of column rows]
  by (auto simp: get_statistics_def isl_def)

lemma get_statistics_no_values:
  "valid_values rows column = [] \<Longrightarrow> get_statistics (Some rows) column = zero_statistics"
  using column_values_sublist[of rows column]
  by (auto simp: get_statistics_def split: sum.splits)

lemma get_statistics_valid:
  assumes "\<not> list_ex (malformed column) rows" and "valid_values rows column \<noteq> []"
  shows "get_statistics (Some rows) column =
         \<lparr>mean = sum_list (valid_values rows column) / real (length (valid_values rows column)),
          std = sqrt (sum_list (map (\<lambda>x. (x - sum_list (valid_values rows column) /
                   real (length (valid_values rows column))) ^ 2) (valid_values rows column))
                 / real (length (valid_values rows column))),
          max_value = Max (set (valid_values rows column)),
          min_value = Min (set (valid_values rows column))\<rparr>"
proof -
  have "rows \<noteq> []" using assms(2) by auto
  then show ?thesis
    using assms by (simp add: get_statistics_def column_values_valid Let_def py_max_Max py_min_Min)
qed


lemmas float_defs =
  float_of_string_def strip_def is_space_def parse_decimal_def take_sign_def parse_exponent_def
  is_digit_def digits_value_def digit_value_def scale10_def

text \<open>
  C5 says that the malformed rows alone are left out and the valid values still determine
  the result. In the code one malformed value raises inside the \<^verbatim>\<open>try\<close>, and the
  \<^verbatim>\<open>except\<close> returns the defaults for the whole column: here the valid 0.9 is lost too.
\<close>

theorem get_statistics_malformed_counterexample:
  "get_statistics (Some [[Some ''accuracy'' \<mapsto> Str ''0.9''], [Some ''accuracy'' \<mapsto> Str ''abc'']])
     ''accuracy'' = \<lparr>mean = 0, std = 0, max_value = 0, min_value = 0\<rparr> \<and>
   valid_values [[Some ''accuracy'' \<mapsto> Str ''0.9''], [Some ''accuracy'' \<mapsto> Str ''abc'']]
     ''accuracy'' = [9 / 10]"
  by (simp add: get_statistics_def zero_statistics_def float_defs)

text \<open>
  C5, as the code has it: \<^verbatim>\<open>get_statistics\<close> never raises (it is a total function: the
  \<^verbatim>\<open>except\<close> clause catches everything). As soon as one row holds a present, non-empty
  value that is not a number, the result is the all-zero default; when no row does, no
  conversion raises and the values computed with are exactly the valid ones.
\<close>

theorem get_statistics_malformed_zero:
  "(list_ex (malformed column) rows \<longrightarrow> get_statistics (Some rows) column = zero_statistics) \<and>
   (\<not> list_ex (malformed column) rows \<longrightarrow>
      column_values rows column = Inr (valid_values rows column))"
  using get_statistics_malformed column_values_valid by blast

theorem get_statistics_malformed_zero_witness:
  "list_ex (malformed ''accuracy'')
     [[Some ''accuracy'' \<mapsto> Str ''0.25''], [Some ''accuracy'' \<mapsto> Str ''1,5''],
      [Some ''accuracy'' \<mapsto> Str ''0.75'']] \<and>
   get_statistics (Some [[Some ''accuracy'' \<mapsto> Str ''0.25''], [Some ''accuracy'' \<mapsto> Str ''1,5''],
      [Some ''accuracy'' \<mapsto> Str ''0.75'']]) ''accuracy'' =
     \<lparr>mean = 0, std = 0, max_value = 0, min_value = 0\<rparr> \<and>
   \<not> list_ex (malformed ''accuracy'')
     [[Some ''accuracy'' \<mapsto> Str ''0.25''], [Some ''accuracy'' \<mapsto> Str []],
      [Some ''round'' \<mapsto> Str ''3''], [Some ''accuracy'' \<mapsto> Str ''0.75'']] \<and>
   column_values
     [[Some ''accuracy'' \<mapsto> Str ''0.25''], [Some ''accuracy'' \<mapsto> Str []],
      [Some ''round'' \<mapsto> Str ''3''], [Some ''accuracy'' \<mapsto> Str ''0.75'']] ''accuracy'' =
     Inr [1 / 4, 3 / 4]"
proof -
  let ?bad = "[[Some ''accuracy'' \<mapsto> Str ''0.25''], [Some ''accuracy'' \<mapsto> Str ''1,5''],
      [Some ''accuracy'' \<mapsto> Str ''0.75'']]"
  let ?good = "[[Some ''accuracy'' \<mapsto> Str ''0.25''], [Some ''accuracy'' \<mapsto> Str []],
      [Some ''round'' \<mapsto> Str ''3''], [Some ''accuracy'' \<mapsto> Str ''0.75'']]"
  have h: "list_ex (malformed ''accuracy'') ?bad"
    by (simp add: malformed_def float_defs)
  have g: "\<not> list_ex (malformed ''accuracy'') ?good"
    by (simp add: malformed_def float_defs)
  have v: "valid_values ?good ''accuracy'' = [1 / 4, 3 / 4]"
    by (simp add: float_defs)
  from get_statistics_malformed_zero[of "''accuracy''" ?bad] h
  have a: "get_statistics (Some ?bad) ''accuracy'' = zero_statistics" by blast
  from get_statistics_malformed_zero[of "''accuracy''" ?good] g
  have b: "column_values ?good ''accuracy'' = Inr (valid_values ?good ''accuracy'')" by blast
  show ?thesis
    using h a[unfolded zero_statistics_def] g b[unfolded v] by blast
qed

text \<open>
  C6 promises the mean of the valid values whenever there is at least one. With a
  malformed value next to the valid 0.42 the code returns the defaults instead.
\<close>

theorem get_statistics_mean_counterexample:
  "get_statistics (Some [[Some ''mean_reward'' \<mapsto> Str ''0.42''], [Some ''mean_reward'' \<mapsto> Str ''n/a'']])
     ''mean_reward'' = \<lparr>mean = 0, std = 0, max_value = 0, min_value = 0\<rparr> \<and>
   valid_values [[Some ''mean_reward'' \<mapsto> Str ''0.42''], [Some ''mean_reward'' \<mapsto> Str ''n/a'']]
     ''mean_reward'' = [21 / 50]"
  by (simp add: get_statistics_def zero_statistics_def float_defs)

text \<open>
  C6, as the code has it: when no row is malformed and there is a valid value, the result
  is the arithmetic mean, the population standard deviation (the squared deviations divided
  by N), the greatest and the least of the valid values; when there is no valid value, the
  result is the all-zero default.
\<close>

theorem get_statistics_population:
  "(valid_values rows column = [] \<longrightarrow> get_statistics (Some rows) column = zero_statistics) \<and>
   (\<not> list_ex (malformed column) rows \<and> valid_values rows column \<noteq> [] \<longrightarrow>
      get_statistics (Some rows) column =
        \<lparr>mean = sum_list (valid_values rows column) / real (length (valid_values rows column)),
         std = sqrt (sum_list (map (\<lambda>x. (x - sum_list (valid_values rows column) /
                  real (length (valid_values rows column))) ^ 2) (valid_values rows column))
                / real (length (valid_values rows column))),
         max_value = Max (set (valid_values rows column)),
         min_value = Min (set (valid_values rows column))\<rparr>)"
  using get_statistics_no_values get_statistics_valid by blast

lemma example_rows_mean_reward:
  "valid_values example_rows ''mean_reward'' = [21 / 50, 11 / 20]"
  by (simp add: example_rows_def dict_row_def metrics_columns_def float_defs)

lemma example_rows_not_malformed:
  "\<not> list_ex (malformed ''mean_reward'') example_rows"
  by (simp add: example_rows_def dict_row_def metrics_columns_def malformed_def float_defs)

text \<open>
  The scenario of the specification, mean 0.485, std 0.065, max 0.55, min 0.42, and a
  column that no row has.
\<close>

theorem get_statistics_population_witness:
  "\<not> list_ex (malformed ''mean_reward'') example_rows \<and>
   valid_values example_rows ''mean_reward'' \<noteq> [] \<and>
   get_statistics (Some example_rows) ''mean_reward'' =
     \<lparr>mean = 97 / 200, std = 13 / 200, max_value = 11 / 20, min_value = 21 / 50\<rparr> \<and>
   valid_values example_rows ''accuracy'' = [] \<and>
   get_statistics (Some example_rows) ''accuracy'' = zero_statistics"
proof -
  have h1: "\<not> list_ex (malformed ''mean_reward'') example_rows"
    by (rule example_rows_not_malformed)
  have h2: "valid_values example_rows ''mean_reward'' \<noteq> []"
    by (simp add: example_rows_mean_reward)
  have h3: "valid_values example_rows ''accuracy'' = []"
    by (simp add: example_rows_def dict_row_def metrics_columns_def)
  have sq: "sqrt (169 / 40000) = 13 / 200"
    by (rule real_sqrt_unique) (simp_all add: power2_eq_square)
  have mx: "Max {21 / 50, 11 / 20 :: real} = 11 / 20" "Min {21 / 50, 11 / 20 :: real} = 21 / 50"
    by simp_all
  have a: "get_statistics (Some example_rows) ''mean_reward'' =
     \<lparr>mean = 97 / 200, std = 13 / 200, max_value = 11 / 20, min_value = 21 / 50\<rparr>"
    using get_statistics_population[of example_rows "''mean_reward''"] h1 h2
    by (simp add: example_rows_mean_reward power2_eq_square sq mx)
  have b: "get_statistics (Some example_rows) ''accuracy'' = zero_statistics"
    using get_statistics_population[of example_rows "''accuracy''"] h3 by simp
  show ?thesis using h1 h2 h3 a b by simp
qed

section \<open>Directories\<close>

lemma ancestors_snoc: "ancestors (p @ [c]) = (if p = [] then [] else ancestors p @ [p])"
  by (induction p) auto

lemma ancestors_shorter: "q \<in> set (ancestors p) \<Longrightarrow> length q < length p"
  by (induction p arbitrary: q) (auto split: if_splits)

lemma ancestors_butlast: "set (ancestors (butlast p)) \<subseteq> set (ancestors p)"
  by (cases p rule: rev_cases) (auto simp: ancestors_snoc)

lemma butlast_ancestor: "butlast p \<noteq> [] \<Longrightarrow> butlast p \<in> set (ancestors p)"
  by (cases p rule: rev_cases) (auto simp: ancestors_snoc)

lemma through_file_iff: "through_file fs p \<longleftrightarrow> (\<exists>q\<in>set (ancestors p). is_file fs q)"
  by (simp add: through_file_def list_ex_iff)

lemma mkdir_parents_creates:
  assumes "\<not> through_file fs p" and "\<not> is_file fs p"
  shows "\<exists>fs'. mkdir_parents fs p = Inr fs' \<and> files fs' = files fs \<and> dirs fs \<subseteq> dirs fs' \<and>
               dirs fs' \<subseteq> dirs fs \<union> set (ancestors p) \<union> {p} \<and> is_dir fs' p"
  using assms
proof (induction fs p rule: mkdir_parents.induct)
  case (1 fs p)
  show ?case
  proof (cases "path_exists fs p")
    case True
    with "1.prems" have d: "is_dir fs p" by (simp add: path_exists_def)
    have "mkdir_parents fs p = Inr fs"
      using True d by (subst mkdir_parents.simps) (simp add: os_mkdir_def)
    then show ?thesis using d by auto
  next
    case False
    show ?thesis
    proof (cases "is_dir fs (butlast p)")
      case True
      have "mkdir_parents fs p = Inr (fs\<lparr>dirs := insert p (dirs fs)\<rparr>)"
        using True False "1.prems" by (subst mkdir_parents.simps) (simp add: os_mkdir_def)
      then show ?thesis by (auto simp: is_dir_def)
    next
      case nd: False
      then have ne: "p \<noteq> []" and bne: "butlast p \<noteq> []" by (auto simp: is_dir_def)
      have os: "os_mkdir fs p = Inl FileNotFoundError"
        using nd False "1.prems" by (simp add: os_mkdir_def)
      have t: "\<not> through_file fs (butlast p)"
        using "1.prems"(1) ancestors_butlast[of p] by (auto simp: through_file_iff)
      have f: "\<not> is_file fs (butlast p)"
        using "1.prems"(1) butlast_ancestor[OF bne] by (auto simp: through_file_iff)
      from "1.IH"[OF os refl ne t f] obtain fs1 where
        m: "mkdir_parents fs (butlast p) = Inr fs1" and fl: "files fs1 = files fs"
        and sub: "dirs fs \<subseteq> dirs fs1"
        and sup: "dirs fs1 \<subseteq> dirs fs \<union> set (ancestors (butlast p)) \<union> {butlast p}"
        and d1: "is_dir fs1 (butlast p)" by blast
      have pnot: "p \<notin> dirs fs1"
      proof
        assume "p \<in> dirs fs1"
        with sup have "p \<in> dirs fs \<or> p \<in> set (ancestors (butlast p)) \<or> p = butlast p" by auto
        moreover have "p \<notin> dirs fs" using False by (auto simp: path_exists_def is_dir_def)
        moreover have "p \<notin> set (ancestors (butlast p))"
          using ancestors_shorter[of p "butlast p"] by auto
        moreover have "p \<noteq> butlast p" using ne by (cases p rule: rev_cases) auto
        ultimately show False by blast
      qed
      have file_mono: "\<And>q. is_file fs1 q \<Longrightarrow> is_file fs q"
        using sub fl by (auto simp: is_file_def is_dir_def)
      have e1: "\<not> path_exists fs1 p"
        using pnot ne False fl by (auto simp: path_exists_def is_dir_def is_file_def)
      have t1: "\<not> through_file fs1 p"
        using "1.prems"(1) file_mono by (auto simp: through_file_iff)
      have os1: "os_mkdir fs1 p = Inr (fs1\<lparr>dirs := insert p (dirs fs1)\<rparr>)"
        using e1 t1 d1 by (simp add: os_mkdir_def)
      have res: "mkdir_parents fs p = Inr (fs1\<lparr>dirs := insert p (dirs fs1)\<rparr>)"
        using os ne m os1 by (subst mkdir_parents.simps) simp
      have "dirs fs1 \<subseteq> dirs fs \<union> set (ancestors p) \<union> {p}"
        using sup ancestors_butlast[of p] butlast_ancestor[OF bne] by auto
      then show ?thesis using res fl sub by (auto simp: is_dir_def)
    qed
  qed
qed

section \<open>The logger in a writable directory\<close>

lemma is_dir_files_update [simp]: "is_dir (fs\<lparr>files := f\<rparr>) p = is_dir fs p"
  by (simp add: is_dir_def)

lemma ancestors_child: "set (ancestors (d @ [c])) \<subseteq> insert d (set (ancestors d))"
  by (auto simp: ancestors_snoc)

lemma child_not_ancestor: "d @ [c] \<notin> set (ancestors d)"
  using ancestors_shorter[of "d @ [c]" d] by auto

lemma open_check_child:
  assumes "writable_dir fs d" and "\<not> is_dir fs (d @ [c])"
  shows "open_check fs (d @ [c]) = None"
proof -
  have "\<not> through_file fs (d @ [c])"
    using assms(1) ancestors_child[of d c]
    by (auto simp: writable_dir_def through_file_iff is_file_def)
  then show ?thesis using assms by (simp add: open_check_def writable_dir_def)
qed

lemma writable_dir_write_child:
  assumes "writable_dir fs d"
  shows "writable_dir (fs\<lparr>files := (files fs)(d @ [c] \<mapsto> s)\<rparr>) d"
proof -
  have "\<And>q. q \<in> set (ancestors d) \<Longrightarrow> q \<noteq> d @ [c]"
    using child_not_ancestor[of d c] by auto
  then show ?thesis
    using assms by (auto simp: writable_dir_def through_file_iff is_file_def)
qed

lemma append_text_child:
  assumes "writable_dir fs d" and "\<not> is_dir fs (d @ [c])"
  shows "append_text fs (d @ [c]) s =
         Inr (fs\<lparr>files := (files fs)(d @ [c] \<mapsto> file_text fs (d @ [c]) @ s)\<rparr>)"
  using open_check_child[OF assms] by (simp add: append_text_def)

lemma write_text_child:
  assumes "writable_dir fs d" and "\<not> is_dir fs (d @ [c])"
  shows "write_text fs (d @ [c]) s = Inr (fs\<lparr>files := (files fs)(d @ [c] \<mapsto> s)\<rparr>)"
  using open_check_child[OF assms] by (simp add: write_text_def)

lemma log_round_ready:
  assumes "logger_ready lg fs"
  shows "\<exists>lg' fs'.
           log_round rt lg fs round_num client_id mean_reward std_reward episode_length loss
             global_reward = Inr (lg', fs') \<and>
           logger_ready lg' fs' \<and> metrics_file lg' = metrics_file lg \<and>
           file_text fs' (metrics_file lg) = file_text fs (metrics_file lg) @
             writerow [PStr (now_iso rt), PInt round_num, PInt client_id, PFloat mean_reward,
                       PFloat std_reward, PInt episode_length, PFloat loss,
                       (case global_reward of Some g \<Rightarrow> PFloat g | None \<Rightarrow> PStr [])]"
proof -
  let ?d = "output_dir lg"
  let ?row = "[PStr (now_iso rt), PInt round_num, PInt client_id, PFloat mean_reward,
               PFloat std_reward, PInt episode_length, PFloat loss,
               (case global_reward of Some g \<Rightarrow> PFloat g | None \<Rightarrow> PStr [])]"
  let ?fs1 = "fs\<lparr>files := (files fs)(?d @ [''metrics.csv''] \<mapsto>
                 file_text fs (?d @ [''metrics.csv'']) @ writerow ?row)\<rparr>"
  from assms have w: "writable_dir fs ?d" and mf: "metrics_file lg = ?d @ [''metrics.csv'']"
    and ef: "events_file lg = ?d @ [''training_log.txt'']"
    and nm: "\<not> is_dir fs (?d @ [''metrics.csv''])" and ne: "\<not> is_dir fs (?d @ [''training_log.txt''])"
    by (auto simp: logger_ready_def)
  have a1: "append_text fs (metrics_file lg) (writerow ?row) = Inr ?fs1"
    unfolding mf by (rule append_text_child[OF w nm])
  have w1: "writable_dir ?fs1 ?d" by (rule writable_dir_write_child[OF w])
  have ne1: "\<not> is_dir ?fs1 (?d @ [''training_log.txt''])" using ne by simp
  have a2: "\<And>s. append_text ?fs1 (events_file lg) s =
      Inr (?fs1\<lparr>files := (files ?fs1)(?d @ [''training_log.txt''] \<mapsto>
             file_text ?fs1 (?d @ [''training_log.txt'']) @ s)\<rparr>)"
    unfolding ef by (rule append_text_child[OF w1 ne1])
  have w2: "\<And>s. writable_dir (?fs1\<lparr>files := (files ?fs1)(?d @ [''training_log.txt''] \<mapsto> s)\<rparr>) ?d"
    by (rule writable_dir_write_child[OF w1])
  show ?thesis
    using a1 a2 w2 mf ef nm ne
    by (simp add: log_round_def log_event_def Let_def logger_ready_def file_text_def)
qed

lemma TrainingLogger_ready:
  assumes "\<not> through_file fs dir" and "\<not> is_file fs dir"
      and "\<not> path_exists fs (dir @ [''metrics.csv''])"
      and "\<not> is_dir fs (dir @ [''training_log.txt''])"
  shows "\<exists>lg fs'. TrainingLogger rt fs dir name = Inr (lg, fs') \<and> logger_ready lg fs' \<and>
                  output_dir lg = dir \<and>
                  file_text fs' (metrics_file lg) = writerow metrics_header"
proof -
  from mkdir_parents_creates[OF assms(1,2)] obtain fs1 where
    m: "mkdir_parents fs dir = Inr fs1" and fl: "files fs1 = files fs"
    and sub: "dirs fs \<subseteq> dirs fs1"
    and sup: "dirs fs1 \<subseteq> dirs fs \<union> set (ancestors dir) \<union> {dir}"
    and d1: "is_dir fs1 dir" by blast
  have new_dirs: "\<And>c. \<not> is_dir fs (dir @ [c]) \<Longrightarrow> \<not> is_dir fs1 (dir @ [c])"
    using sup child_not_ancestor[of dir] by (auto simp: is_dir_def)
  have file_mono: "\<And>q. is_file fs1 q \<Longrightarrow> is_file fs q"
    using sub fl by (auto simp: is_file_def is_dir_def)
  have w1: "writable_dir fs1 dir"
    using d1 assms(1) file_mono by (auto simp: writable_dir_def through_file_iff)
  let ?m = "dir @ [''metrics.csv'']" and ?a = "dir @ [''actions.csv'']"
  let ?e = "dir @ [''training_log.txt'']"
  have nm: "\<not> is_dir fs1 ?m" using assms(3) new_dirs by (auto simp: path_exists_def)
  have ne: "\<not> is_dir fs1 ?e" using assms(4) new_dirs by auto
  have nofile: "files fs1 ?m = None"
    using assms(3) fl by (auto simp: path_exists_def is_file_def)
  have em: "\<not> path_exists fs1 ?m"
    using nm nofile by (simp add: path_exists_def is_file_def)
  let ?fs2 = "fs1\<lparr>files := (files fs1)(?m \<mapsto> writerow metrics_header)\<rparr>"
  have s2: "write_text fs1 ?m (writerow metrics_header) = Inr ?fs2"
    by (rule write_text_child[OF w1 nm])
  have w2: "writable_dir ?fs2 dir" by (rule writable_dir_write_child[OF w1])
  obtain fs3 where s3: "(if \<not> path_exists ?fs2 ?a
        then write_text ?fs2 ?a (writerow actions_header) else Inr ?fs2) = Inr fs3"
      and w3: "writable_dir fs3 dir" and d3: "dirs fs3 = dirs fs1"
      and f3: "files fs3 ?m = Some (writerow metrics_header)"
  proof (cases "path_exists ?fs2 ?a")
    case True
    then show ?thesis using that[of ?fs2] w2 by simp
  next
    case False
    then have na: "\<not> is_dir ?fs2 ?a" by (simp add: path_exists_def)
    show ?thesis
      using that[of "?fs2\<lparr>files := (files ?fs2)(?a \<mapsto> writerow actions_header)\<rparr>"]
        False write_text_child[OF w2 na] writable_dir_write_child[OF w2]
      by simp
  qed
  have ne3: "\<not> is_dir fs3 ?e" using ne d3 by (simp add: is_dir_def)
  have nm3: "\<not> is_dir fs3 ?m" using nm d3 by (simp add: is_dir_def)
  define lg0 where "lg0 =
     \<lparr>output_dir = dir,
      experiment_name = (case name of None \<Rightarrow> now_compact rt | Some n \<Rightarrow> n),
      metrics_file = ?m, actions_file = ?a, events_file = ?e,
      config_file = dir @ [''config.json''],
      metrics_buffer = [], actions_buffer = [], events_buffer = []\<rparr>"
  define line where "line = ''['' @ now_event rt @ ''] ['' @ ''INFO'' @ ''] '' @ ''Logger initialized'' @ [LF]"
  let ?fs4 = "fs3\<lparr>files := (files fs3)(?e \<mapsto> file_text fs3 ?e @ line)\<rparr>"
  have i1: "init_metrics_csv lg0 fs1 = Inr ?fs2"
    using em s2 by (simp add: init_metrics_csv_def lg0_def)
  have i2: "init_actions_csv lg0 ?fs2 = Inr fs3"
    using s3 by (auto simp: init_actions_csv_def lg0_def split: if_splits)
  have "append_text fs3 ?e line = Inr ?fs4"
    by (rule append_text_child[OF w3 ne3])
  then have i3: "log_event rt lg0 fs3 ''Logger initialized'' ''INFO'' =
      Inr (lg0\<lparr>events_buffer := events_buffer lg0 @ [line]\<rparr>, ?fs4)"
    by (simp add: log_event_def Let_def lg0_def line_def)
  have res: "TrainingLogger rt fs dir name = Inr (lg0\<lparr>events_buffer := events_buffer lg0 @ [line]\<rparr>, ?fs4)"
    using m i1 i2 i3 by (simp add: TrainingLogger_def Let_def lg0_def[symmetric])
  have w4: "writable_dir ?fs4 dir" by (rule writable_dir_write_child[OF w3])
  have rdy: "logger_ready (lg0\<lparr>events_buffer := events_buffer lg0 @ [line]\<rparr>) ?fs4"
    using w4 ne3 nm3 by (simp add: logger_ready_def lg0_def)
  have mtext: "file_text ?fs4 (metrics_file (lg0\<lparr>events_buffer := events_buffer lg0 @ [line]\<rparr>))
      = writerow metrics_header"
    using f3 by (simp add: file_text_def lg0_def)
  show ?thesis using res rdy mtext by (simp add: lg0_def)
qed

section \<open>Reading a written table back\<close>

lemma writerow_not_empty: "writerow r \<noteq> []"
  by (simp add: writerow_def Let_def)

lemma plain_row_cells: "plain_row r \<Longrightarrow> map py_str r \<noteq> []"
  by (auto simp: plain_row_def)

lemma DictReader_rows:
  assumes "list_all plain_row (h # rows)"
  shows "DictReader (concat (map writerow (h # rows))) =
         Inr (map (\<lambda>r. dict_row (map py_str h) (map py_str r)) rows)"
proof -
  have "filter (\<lambda>r. r \<noteq> []) (map (map py_str) rows) = map (map py_str) rows"
    using assms by (auto simp: filter_id_conv list_all_iff plain_row_def)
  then show ?thesis
    using csv_reader_rows[OF assms] by (simp add: DictReader_def comp_def)
qed

lemma read_table_written:
  assumes "\<not> is_dir fs p" and "file_text fs p = concat (map writerow (h # rows))"
      and "list_all plain_row (h # rows)"
  shows "read_table fs a p =
         ([], if rows = [] then None
              else Some (map (\<lambda>r. dict_row (map py_str h) (map py_str r)) rows))"
proof -
  have "file_text fs p \<noteq> []" using assms(2) writerow_not_empty by simp
  then have f: "files fs p = Some (concat (map writerow (h # rows)))"
    using assms(2) by (auto simp: file_text_def split: option.splits)
  have e: "path_exists fs p" using f assms(1) by (simp add: path_exists_def is_file_def)
  have r: "read_text fs p = Inr (concat (map writerow (h # rows)))"
    using f assms(1) by (simp add: read_text_def)
  show ?thesis
    unfolding read_table_def using e r DictReader_rows[OF assms(3)] by simp
qed

lemma plain_row_metrics_header: "plain_row metrics_header"
  by (simp add: plain_row_def plain_def needs_quote_def field_limit_def metrics_header_def)

lemma metrics_header_columns: "map py_str metrics_header = metrics_columns"
  by (simp add: metrics_header_def metrics_columns_def)

lemma str_int_small:
  "str_int 0 = ''0''" "str_int 1 = ''1''" "str_int 2 = ''2''"
  by (simp_all add: str_int_def str_nat.simps digit_char_def)

lemma scenario_latest_value:
  assumes "\<not> through_file fs dir" and "\<not> is_file fs dir"
      and "\<not> path_exists fs (dir @ [''metrics.csv''])"
      and "\<not> is_dir fs (dir @ [''training_log.txt''])"
      and "plain (now_iso rt1)" and "plain (now_iso rt2)"
  shows "scenario_latest rt0 rt1 rt2 fs dir = Inr \<lparr>round = 2, accuracy = 0, reward = 0\<rparr>"
proof -
  let ?r1 = "[PStr (now_iso rt1), PInt 1, PInt 0, PFloat (Float ''0.42''),
              PFloat (Float ''0.0''), PInt 0, PFloat (Float ''0.05''), PStr []]"
  let ?r2 = "[PStr (now_iso rt2), PInt 2, PInt 0, PFloat (Float ''0.55''),
              PFloat (Float ''0.0''), PInt 0, PFloat (Float ''0.03''), PStr []]"
  from TrainingLogger_ready[OF assms(1-4), of rt0 None] obtain lg0 fs0 where
    c0: "TrainingLogger rt0 fs dir None = Inr (lg0, fs0)" and r0: "logger_ready lg0 fs0"
    and t0: "file_text fs0 (metrics_file lg0) = writerow metrics_header" by blast
  from log_round_ready[OF r0, of rt1 1 0 "Float ''0.42''" "Float ''0.0''" 0 "Float ''0.05''" None]
  obtain lg1 fs1 where
    c1: "log_round rt1 lg0 fs0 1 0 (Float ''0.42'') (Float ''0.0'') 0 (Float ''0.05'') None = Inr (lg1, fs1)"
    and r1: "logger_ready lg1 fs1" and m1: "metrics_file lg1 = metrics_file lg0"
    and t1: "file_text fs1 (metrics_file lg0) = file_text fs0 (metrics_file lg0) @ writerow ?r1"
    by auto
  from log_round_ready[OF r1, of rt2 2 0 "Float ''0.55''" "Float ''0.0''" 0 "Float ''0.03''" None]
  obtain lg2 fs2 where
    c2: "log_round rt2 lg1 fs1 2 0 (Float ''0.55'') (Float ''0.0'') 0 (Float ''0.03'') None = Inr (lg2, fs2)"
    and r2: "logger_ready lg2 fs2" and m2: "metrics_file lg2 = metrics_file lg1"
    and t2: "file_text fs2 (metrics_file lg1) = file_text fs1 (metrics_file lg1) @ writerow ?r2"
    by auto
  have content: "file_text fs2 (metrics_file lg2) = concat (map writerow [metrics_header, ?r1, ?r2])"
    using t0 t1 t2 m1 m2 by simp
  have pl: "list_all plain_row [metrics_header, ?r1, ?r2]"
    using assms(5,6) plain_row_metrics_header
    by (simp add: plain_row_def str_int_small) (simp add: plain_def needs_quote_def field_limit_def)
  have nd: "\<not> is_dir fs2 (metrics_file lg2)" using r2 by (auto simp: logger_ready_def)
  have rd: "read_table fs2 ''metrics'' (metrics_file lg2) =
      ([], Some [dict_row metrics_columns (map py_str ?r1), dict_row metrics_columns (map py_str ?r2)])"
    using read_table_written[OF nd content pl] by (simp add: metrics_header_columns)
  have "get_latest_metrics (Some [dict_row metrics_columns (map py_str ?r1),
                                  dict_row metrics_columns (map py_str ?r2)])
        = Inr \<lparr>round = 2, accuracy = 0, reward = 0\<rparr>"
    by (simp add: get_latest_metrics_def get_float_def dict_row_def metrics_columns_def
        str_int_small float_defs int_of_float_def)
  then show ?thesis
    using c0 c1 c2 rd by (simp add: scenario_latest_def)
qed

lemmas csv_defs =
  csv_reader_def file_lines_def parse_reset_def parse_process_char.simps start_field_def
  is_newline_def after_newline_def parse_add_char_def parse_save_field_def field_limit_def

lemmas fs_defs =
  path_exists_def is_dir_def is_file_def through_file_def open_check_def

section \<open>Claims about reading tables\<close>

text \<open>
  C1 says that a file with a header row and no data row gives an empty sequence, distinct
  from absent. \<^verbatim>\<open>load_metrics\<close> returns its data only \<^verbatim>\<open>if len(data) > 0\<close> and falls
  through to \<^verbatim>\<open>return None\<close> otherwise: the header-only table of PPO is as absent as the
  missing table of SAC.
\<close>

theorem load_metrics_header_only_counterexample:
  "load_metrics example_monitor header_only_fs ''PPO'' = ([], None) \<and>
   load_metrics example_monitor header_only_fs ''SAC'' = ([], None)"
  by (simp add: load_metrics_def example_monitor_def header_only_fs_def read_table_def
      read_text_def DictReader_def fs_defs csv_defs)

text \<open>
  C1, as the code has it: for every path, the result is absent when the file does not
  exist, and absent as well when the file holds a header row and no data row; an empty
  sequence is never returned.
\<close>

theorem read_table_absent:
  "(\<not> path_exists fs p \<longrightarrow> read_table fs a p = ([], None)) \<and>
   (\<not> is_dir fs p \<and> files fs p = Some (writerow h) \<and> plain_row h \<longrightarrow>
      read_table fs a p = ([], None)) \<and>
   snd (read_table fs a p) \<noteq> Some []"
proof -
  have "read_table fs a p = ([], None)"
    if "\<not> is_dir fs p" "files fs p = Some (writerow h)" "plain_row h"
    using read_table_written[of fs p h "[]" a] that by (simp add: file_text_def)
  moreover have "snd (read_table fs a p) \<noteq> Some []"
    by (auto simp: read_table_def split: sum.splits)
  ultimately show ?thesis by (simp add: read_table_def)
qed

theorem read_table_absent_witness:
  "\<not> path_exists example_fs [''drl_outputs'', ''PPO_metrics.csv''] \<and>
   read_table example_fs ''PPO'' [''drl_outputs'', ''PPO_metrics.csv''] = ([], None) \<and>
   \<not> is_dir example_fs [''drl_outputs'', ''metrics.csv''] \<and>
   files example_fs [''drl_outputs'', ''metrics.csv''] = Some (writerow metrics_header) \<and>
   plain_row metrics_header \<and>
   read_table example_fs ''metrics'' [''drl_outputs'', ''metrics.csv''] = ([], None)"
proof -
  have h1: "\<not> path_exists example_fs [''drl_outputs'', ''PPO_metrics.csv'']"
    by (simp add: example_fs_def fs_defs)
  have h2: "\<not> is_dir example_fs [''drl_outputs'', ''metrics.csv'']"
    by (simp add: example_fs_def fs_defs)
  have h3: "files example_fs [''drl_outputs'', ''metrics.csv''] = Some (writerow metrics_header)"
    by (simp add: example_fs_def)
  show ?thesis
    using read_table_absent[of example_fs "[''drl_outputs'', ''PPO_metrics.csv'']" "''PPO''" metrics_header]
      read_table_absent[of example_fs "[''drl_outputs'', ''metrics.csv'']" "''metrics''" metrics_header]
      h1 h2 h3 plain_row_metrics_header
    by simp
qed

text \<open>
  C3 expects the reward 0.55 from \<^verbatim>\<open>get_latest_metrics\<close>. The rows of the logger's
  metrics file have the column \<^verbatim>\<open>mean_reward\<close> and no column \<^verbatim>\<open>reward\<close>, so
  \<^verbatim>\<open>latest.get('reward', 0.0)\<close> is the default, as for \<^verbatim>\<open>accuracy\<close>.
\<close>

theorem scenario_latest_counterexample:
  "scenario_latest example_runtime example_runtime example_runtime empty_fs [''drl_outputs''] =
   Inr \<lparr>round = 2, accuracy = 0, reward = 0\<rparr>"
  by (rule scenario_latest_value)
     (simp_all add: empty_fs_def fs_defs example_runtime_def plain_def needs_quote_def field_limit_def)

text \<open>
  C3, as the code has it: on a fresh log, whatever the clock shows, the two calls succeed
  and \<^verbatim>\<open>get_latest_metrics\<close> on the rows read back is round 2, accuracy 0.0, reward 0.0.
  A fresh log is an output directory that can be made, with no metrics file in it yet and an
  event log that can be opened; the timestamps are plain cells.
\<close>

theorem scenario_latest_default_reward:
  assumes "\<not> through_file fs dir" and "\<not> is_file fs dir"
      and "\<not> path_exists fs (dir @ [''metrics.csv''])"
      and "\<not> is_dir fs (dir @ [''training_log.txt''])"
      and "plain (now_iso rt1)" and "plain (now_iso rt2)"
  shows "scenario_latest rt0 rt1 rt2 fs dir = Inr \<lparr>round = 2, accuracy = 0, reward = 0\<rparr>"
  using assms by (rule scenario_latest_value)

theorem scenario_latest_default_reward_witness:
  "\<not> through_file empty_fs [''runs'', ''exp1''] \<and> \<not> is_file empty_fs [''runs'', ''exp1''] \<and>
   \<not> path_exists empty_fs ([''runs'', ''exp1''] @ [''metrics.csv'']) \<and>
   \<not> is_dir empty_fs ([''runs'', ''exp1''] @ [''training_log.txt'']) \<and>
   plain (now_iso example_runtime) \<and>
   plain (now_iso (example_runtime\<lparr>now_iso := ''2025-03-01T12:00:02.000001''\<rparr>)) \<and>
   scenario_latest example_runtime example_runtime
     (example_runtime\<lparr>now_iso := ''2025-03-01T12:00:02.000001''\<rparr>) empty_fs [''runs'', ''exp1'']
     = Inr \<lparr>round = 2, accuracy = 0, reward = 0\<rparr>"
proof -
  have h1: "\<not> through_file empty_fs [''runs'', ''exp1'']"
    and h2: "\<not> is_file empty_fs [''runs'', ''exp1'']"
    and h3: "\<not> path_exists empty_fs ([''runs'', ''exp1''] @ [''metrics.csv''])"
    and h4: "\<not> is_dir empty_fs ([''runs'', ''exp1''] @ [''training_log.txt''])"
    by (simp_all add: empty_fs_def fs_defs)
  have h5: "plain (now_iso example_runtime)"
    and h6: "plain (now_iso (example_runtime\<lparr>now_iso := ''2025-03-01T12:00:02.000001''\<rparr>))"
    by (simp_all add: example_runtime_def plain_def needs_quote_def field_limit_def)
  show ?thesis
    using scenario_latest_default_reward[OF h1 h2 h3 h4 h5 h6, of example_runtime] h1 h2 h3 h4 h5 h6
    by simp
qed

section \<open>Claims about the missing global reward\<close>

lemma join_fields_snoc:
  "fs \<noteq> [] \<Longrightarrow> join_fields (fs @ [f]) = join_fields fs @ [delimiter] @ join_field f"
  by (induction fs rule: join_fields.induct) simp_all

text \<open>
  C9: \<^verbatim>\<open>log_round\<close> with \<^verbatim>\<open>global_reward=None\<close> writes the last column as an empty field
  (the line ends with the delimiter and the line terminator), and the monitor's reader
  returns the rows without an error, the new row last, with the empty string under
  \<^verbatim>\<open>global_reward\<close>. The logger is in a state where it can write, the table holds its
  header and rows of plain cells, and the new cells are plain.
\<close>

theorem log_round_global_reward_none:
  assumes "logger_ready lg fs"
      and "file_text fs (metrics_file lg) = concat (map writerow (metrics_header # rows))"
      and "list_all plain_row rows"
      and "plain_row [PStr (now_iso rt), PInt round_num, PInt client_id, PFloat mean_reward,
                      PFloat std_reward, PInt episode_length, PFloat loss]"
  shows "\<exists>lg' fs' data.
           log_round rt lg fs round_num client_id mean_reward std_reward episode_length loss None
             = Inr (lg', fs') \<and>
           file_text fs' (metrics_file lg) = file_text fs (metrics_file lg) @
             join_fields [now_iso rt, str_int round_num, str_int client_id, repr mean_reward,
                          repr std_reward, str_int episode_length, repr loss] @
             [delimiter] @ [CR, LF] \<and>
           read_table fs' agent (metrics_file lg) = ([], Some data) \<and>
           length data = length rows + 1 \<and>
           last data (Some ''global_reward'') = Some (Str [])"
proof -
  let ?cells = "[PStr (now_iso rt), PInt round_num, PInt client_id, PFloat mean_reward,
                 PFloat std_reward, PInt episode_length, PFloat loss]"
  let ?row = "?cells @ [PStr []]"
  from log_round_ready[OF assms(1), of rt round_num client_id mean_reward std_reward
      episode_length loss None]
  obtain lg' fs' where
    c: "log_round rt lg fs round_num client_id mean_reward std_reward episode_length loss None
          = Inr (lg', fs')"
    and r: "logger_ready lg' fs'" and m: "metrics_file lg' = metrics_file lg"
    and t: "file_text fs' (metrics_file lg) = file_text fs (metrics_file lg) @ writerow ?row"
    by auto
  have pr: "plain_row ?row"
    using assms(4) by (simp add: plain_row_def plain_def needs_quote_def)
  have "join_fields (map py_str ?cells @ [[]]) =
        join_fields (map py_str ?cells) @ [delimiter] @ join_field []"
    by (rule join_fields_snoc) simp
  then have w: "writerow ?row = join_fields (map py_str ?cells) @ [delimiter] @ [CR, LF]"
    using writerow_plain[OF pr] by (simp add: join_field_def needs_quote_def)
  have nd: "\<not> is_dir fs' (metrics_file lg)" using r m by (auto simp: logger_ready_def)
  have content: "file_text fs' (metrics_file lg) = concat (map writerow (metrics_header # rows @ [?row]))"
    using t assms(2) by simp
  have pl: "list_all plain_row (metrics_header # rows @ [?row])"
    using assms(3) pr plain_row_metrics_header by simp
  have rd: "read_table fs' agent (metrics_file lg) =
      ([], Some (map (\<lambda>r. dict_row metrics_columns (map py_str r)) (rows @ [?row])))"
    using read_table_written[OF nd content pl] by (simp add: metrics_header_columns)
  have lst: "dict_row metrics_columns (map py_str ?row) (Some ''global_reward'') = Some (Str [])"
    by (simp add: dict_row_def metrics_columns_def)
  show ?thesis
    using c t w rd lst by simp
qed

theorem log_round_global_reward_none_witness:
  "logger_ready example_logger example_fs \<and>
   file_text example_fs (metrics_file example_logger) = concat (map writerow (metrics_header # [])) \<and>
   list_all plain_row [] \<and>
   plain_row [PStr (now_iso example_runtime), PInt 1, PInt 0, PFloat (Float ''0.42''),
              PFloat (Float ''0.0''), PInt 0, PFloat (Float ''0.05'')] \<and>
   (\<exists>lg' fs' data.
      log_round example_runtime example_logger example_fs 1 0 (Float ''0.42'') (Float ''0.0'') 0
        (Float ''0.05'') None = Inr (lg', fs') \<and>
      file_text fs' (metrics_file example_logger) =
        file_text example_fs (metrics_file example_logger) @
        ''2025-03-01T12:00:00.000001,1,0,0.42,0.0,0,0.05,'' @ [CR, LF] \<and>
      read_table fs' ''metrics'' (metrics_file example_logger) = ([], Some data) \<and>
      length data = 1 \<and>
      last data (Some ''global_reward'') = Some (Str []))"
proof -
  have h1: "logger_ready example_logger example_fs"
    by (simp add: logger_ready_def writable_dir_def example_logger_def example_fs_def fs_defs)
  have h2: "file_text example_fs (metrics_file example_logger) =
            concat (map writerow (metrics_header # []))"
    by (simp add: file_text_def example_fs_def example_logger_def)
  have h3: "list_all plain_row []" by simp
  have h4: "plain_row [PStr (now_iso example_runtime), PInt 1, PInt 0, PFloat (Float ''0.42''),
              PFloat (Float ''0.0''), PInt 0, PFloat (Float ''0.05'')]"
    by (simp add: plain_row_def plain_def needs_quote_def field_limit_def example_runtime_def
        str_int_small)
  have j: "join_fields [now_iso example_runtime, str_int 1, str_int 0, repr (Float ''0.42''),
             repr (Float ''0.0''), str_int 0, repr (Float ''0.05'')] =
           ''2025-03-01T12:00:00.000001,1,0,0.42,0.0,0,0.05''"
    by (simp add: join_field_def needs_quote_def example_runtime_def str_int_small)
  show ?thesis
    using log_round_global_reward_none[OF h1 h2 h3 h4, of "''metrics''", unfolded j] h1 h2 h4
    by simp
qed

section \<open>Claims about the monitor's directory\<close>

text \<open>
  C10: when the results directory does not exist, the constructor of the monitor creates
  it, parents included, and succeeds, for every path that can be created: one that does
  not lead through a regular file. Files are left as they are and no directory is lost.
\<close>

theorem TrainingMonitor_creates_directory:
  assumes "\<not> path_exists fs dir" and "\<not> through_file fs dir"
  shows "\<exists>m fs' printed.
           TrainingMonitor now fs dir = Inr (m, fs', printed) \<and> is_dir fs' dir \<and>
           results_dir m = dir \<and> files fs' = files fs \<and> dirs fs \<subseteq> dirs fs'"
proof -
  have "\<not> is_file fs dir" using assms(1) by (simp add: path_exists_def)
  from mkdir_parents_creates[OF assms(2) this] obtain fs' where
    "mkdir_parents fs dir = Inr fs'" "files fs' = files fs" "dirs fs \<subseteq> dirs fs'" "is_dir fs' dir"
    by blast
  then show ?thesis using assms(1) by (simp add: TrainingMonitor_def)
qed

theorem TrainingMonitor_creates_directory_witness:
  "\<not> path_exists empty_fs [''runs'', ''exp1'', ''results''] \<and>
   \<not> through_file empty_fs [''runs'', ''exp1'', ''results''] \<and>
   (\<exists>m fs' printed.
      TrainingMonitor 0 empty_fs [''runs'', ''exp1'', ''results''] = Inr (m, fs', printed) \<and>
      is_dir fs' [''runs'', ''exp1'', ''results''] \<and>
      results_dir m = [''runs'', ''exp1'', ''results''] \<and>
      files fs' = files empty_fs \<and> dirs empty_fs \<subseteq> dirs fs')"
proof -
  have h1: "\<not> path_exists empty_fs [''runs'', ''exp1'', ''results'']"
    and h2: "\<not> through_file empty_fs [''runs'', ''exp1'', ''results'']"
    by (simp_all add: empty_fs_def fs_defs)
  show ?thesis
    using TrainingMonitor_creates_directory[OF h1 h2, of 0] h1 h2 by simp
qed

lemma TrainingMonitor_nested_example:
  "TrainingMonitor 0 empty_fs [''runs'', ''exp1'', ''results''] =
   Inr (\<lparr>results_dir = [''runs'', ''exp1'', ''results''],
         metric_files = [(''PPO'', [''runs'', ''exp1'', ''results'', ''PPO_metrics.csv'']),
                         (''SAC'', [''runs'', ''exp1'', ''results'', ''SAC_metrics.csv'']),
                         (''TD3'', [''runs'', ''exp1'', ''results'', ''TD3_metrics.csv'']),
                         (''Random'', [''runs'', ''exp1'', ''results'', ''Random_metrics.csv''])],
         summary_file = [''runs'', ''exp1'', ''results'', ''summary.csv''],
         start_time = 0, iteration = 0\<rparr>,
        \<lparr>dirs = {[''runs'', ''exp1'', ''results''], [''runs'', ''exp1''], [''runs'']},
         files = Map.empty\<rparr>,
        [DirectoryWarning [''runs'', ''exp1'', ''results''], Text ''Creating directory...''])"
  by (simp add: TrainingMonitor_def mkdir_parents.simps os_mkdir_def empty_fs_def fs_defs)

section \<open>The best performer\<close>

lemma foldl_max_key:
  fixes key :: "'a \<Rightarrow> real"
  shows "(foldl (\<lambda>best x. if key x > key best then x else best) b xs = b \<and>
          (\<forall>x\<in>set xs. key x \<le> key b)) \<or>
         (\<exists>ys zs. xs = ys @ foldl (\<lambda>best x. if key x > key best then x else best) b xs # zs \<and>
            key b < key (foldl (\<lambda>best x. if key x > key best then x else best) b xs) \<and>
            (\<forall>y\<in>set ys. key y < key (foldl (\<lambda>best x. if key x > key best then x else best) b xs)) \<and>
            (\<forall>z\<in>set zs. key z \<le> key (foldl (\<lambda>best x. if key x > key best then x else best) b xs)))"
proof (induction xs arbitrary: b)
  case Nil
  then show ?case by simp
next
  case (Cons x xs)
  let ?f = "\<lambda>best x. if key x > key best then x else best"
  show ?case
  proof (cases "key x > key b")
    case True
    let ?r = "foldl ?f x xs"
    from Cons.IH[of x] show ?thesis
    proof
      assume a: "?r = x \<and> (\<forall>y\<in>set xs. key y \<le> key x)"
      have "x # xs = [] @ foldl ?f b (x # xs) # xs" using True a by simp
      moreover have "key b < key (foldl ?f b (x # xs))" using True a by simp
      moreover have "\<forall>z\<in>set xs. key z \<le> key (foldl ?f b (x # xs))" using True a by simp
      ultimately show ?thesis by (intro disjI2 exI[of _ "[]"] exI[of _ xs]) simp
    next
      assume "\<exists>ys zs. xs = ys @ ?r # zs \<and> key x < key ?r \<and>
                (\<forall>y\<in>set ys. key y < key ?r) \<and> (\<forall>z\<in>set zs. key z \<le> key ?r)"
      then obtain ys zs where a: "xs = ys @ ?r # zs" "key x < key ?r"
        "\<forall>y\<in>set ys. key y < key ?r" "\<forall>z\<in>set zs. key z \<le> key ?r" by blast
      have r: "foldl ?f b (x # xs) = ?r" using True by simp
      have "x # xs = (x # ys) @ ?r # zs" using a(1) by simp
      moreover have "key b < key ?r" using True a(2) by simp
      moreover have "\<forall>y\<in>set (x # ys). key y < key ?r" using a(2,3) by simp
      ultimately show ?thesis unfolding r using a(4) by blast
    qed
  next
    case False
    let ?r = "foldl ?f b xs"
    have r: "foldl ?f b (x # xs) = ?r" using False by simp
    from Cons.IH[of b] show ?thesis
    proof
      assume "?r = b \<and> (\<forall>y\<in>set xs. key y \<le> key b)"
      then show ?thesis unfolding r using False by auto
    next
      assume "\<exists>ys zs. xs = ys @ ?r # zs \<and> key b < key ?r \<and>
                (\<forall>y\<in>set ys. key y < key ?r) \<and> (\<forall>z\<in>set zs. key z \<le> key ?r)"
      then obtain ys zs where a: "xs = ys @ ?r # zs" "key b < key ?r"
        "\<forall>y\<in>set ys. key y < key ?r" "\<forall>z\<in>set zs. key z \<le> key ?r" by blast
      have "x # xs = (x # ys) @ ?r # zs" using a(1) by simp
      moreover have "\<forall>y\<in>set (x # ys). key y < key ?r" using a(2,3) False by auto
      ultimately show ?thesis unfolding r using a(2,4) by blast
    qed
  qed
qed

lemma py_max_key_first:
  fixes key :: "'a \<Rightarrow> real"
  assumes "xs \<noteq> []"
  shows "\<exists>ys zs. xs = ys @ py_max_key key xs # zs \<and>
           (\<forall>y\<in>set ys. key y < key (py_max_key key xs)) \<and>
           (\<forall>z\<in>set zs. key z \<le> key (py_max_key key xs))"
proof -
  obtain b bs where xs: "xs = b # bs" using assms by (cases xs) auto
  let ?r = "py_max_key key xs"
  have r: "?r = foldl (\<lambda>best x. if key x > key best then x else best) b bs"
    by (simp add: py_max_key_def xs)
  from foldl_max_key[of key b bs] show ?thesis
  proof
    assume "foldl (\<lambda>best x. if key x > key best then x else best) b bs = b \<and>
            (\<forall>x\<in>set bs. key x \<le> key b)"
    then have "xs = [] @ ?r # bs" "\<forall>z\<in>set bs. key z \<le> key ?r"
      using r xs by simp_all
    then show ?thesis by (intro exI[of _ "[]"] exI[of _ bs]) simp
  next
    assume "\<exists>ys zs. bs = ys @ foldl (\<lambda>best x. if key x > key best then x else best) b bs # zs \<and>
            key b < key (foldl (\<lambda>best x. if key x > key best then x else best) b bs) \<and>
            (\<forall>y\<in>set ys. key y < key (foldl (\<lambda>best x. if key x > key best then x else best) b bs)) \<and>
            (\<forall>z\<in>set zs. key z \<le> key (foldl (\<lambda>best x. if key x > key best then x else best) b bs))"
    then obtain ys zs where a: "bs = ys @ ?r # zs" "key b < key ?r"
      "\<forall>y\<in>set ys. key y < key ?r" "\<forall>z\<in>set zs. key z \<le> key ?r"
      unfolding r by blast
    have "xs = (b # ys) @ ?r # zs" using a(1) xs by simp
    moreover have "\<forall>y\<in>set (b # ys). key y < key ?r" using a(2,3) by simp
    ultimately show ?thesis using a(4) by blast
  qed
qed

lemma filter_eq_appendD:
  "filter P xs = ys @ zs \<Longrightarrow> \<exists>us vs. xs = us @ vs \<and> filter P us = ys \<and> filter P vs = zs"
proof (induction ys arbitrary: xs)
  case Nil
  then show ?case by (intro exI[of _ "[]"] exI[of _ xs]) simp
next
  case (Cons y ys)
  then have "filter P xs = y # (ys @ zs)" by simp
  then obtain a b where x: "xs = a @ y # b" "\<forall>u\<in>set a. \<not> P u" "P y" "ys @ zs = filter P b"
    by (auto simp: filter_eq_Cons_iff)
  from Cons.IH[of b] x(4) obtain us vs where b: "b = us @ vs" "filter P us = ys" "filter P vs = zs"
    by auto
  have "xs = (a @ y # us) @ vs" using x(1) b(1) by simp
  moreover have "filter P (a @ y # us) = y # ys" using x(2,3) b(2) by simp
  ultimately show ?case using b(3) by blast
qed

text \<open>
  C8: for every dictionary of latest metrics, whose keys are those of the agents that have
  data, in the order PPO, SAC, TD3, Random in which the loop stores them, the best performer
  is an agent of the dictionary with the greatest latest accuracy, and every agent before
  it in that order that is in the dictionary has a strictly smaller one.
\<close>

theorem best_agent_first_maximal:
  assumes "map fst am = filter P agents" and "am \<noteq> []"
  shows "best_agent am \<in> set (map fst am) \<and>
         (\<forall>a\<in>set (map fst am). latest_accuracy am a \<le> latest_accuracy am (best_agent am)) \<and>
         (\<exists>before after. agents = before @ best_agent am # after \<and>
            (\<forall>a\<in>set before. P a \<longrightarrow> latest_accuracy am a < latest_accuracy am (best_agent am)))"
proof -
  let ?key = "latest_accuracy am" and ?b = "best_agent am"
  have ne: "map fst am \<noteq> []" using assms(2) by simp
  from py_max_key_first[OF ne, of ?key] obtain ys zs where
    s: "map fst am = ys @ ?b # zs" and lt: "\<forall>y\<in>set ys. ?key y < ?key ?b"
    and le: "\<forall>z\<in>set zs. ?key z \<le> ?key ?b"
    unfolding best_agent_def by blast
  have mem: "?b \<in> set (map fst am)" using s by simp
  have mx: "\<forall>a\<in>set (map fst am). ?key a \<le> ?key ?b"
    using s lt le by (auto simp: less_imp_le)
  from s assms(1) have "filter P agents = ys @ ?b # zs" by simp
  then obtain us vs where u: "agents = us @ vs" "filter P us = ys" "filter P vs = ?b # zs"
    using filter_eq_appendD[of P agents ys "?b # zs"] by auto
  from u(3) obtain us' vs' where v: "vs = us' @ ?b # vs'" "\<forall>u\<in>set us'. \<not> P u"
    by (auto simp: filter_eq_Cons_iff)
  have "agents = (us @ us') @ ?b # vs'" using u(1) v(1) by simp
  moreover have "\<forall>a\<in>set (us @ us'). P a \<longrightarrow> ?key a < ?key ?b"
    using u(2) v(2) lt by auto
  ultimately show ?thesis using mem mx by blast
qed

text \<open>PPO 0.5, SAC 0.8, Random 0.8: the tie goes to SAC, which comes first.\<close>

theorem best_agent_first_maximal_witness:
  "map fst example_metrics = filter (\<lambda>a. a \<noteq> ''TD3'') agents \<and> example_metrics \<noteq> [] \<and>
   best_agent example_metrics = ''SAC'' \<and>
   best_agent example_metrics \<in> set (map fst example_metrics) \<and>
   latest_accuracy example_metrics ''Random'' \<le> latest_accuracy example_metrics (best_agent example_metrics) \<and>
   latest_accuracy example_metrics ''PPO'' < latest_accuracy example_metrics (best_agent example_metrics)"
proof -
  have h1: "map fst example_metrics = filter (\<lambda>a. a \<noteq> ''TD3'') agents"
    by (simp add: example_metrics_def agents_def)
  have h2: "example_metrics \<noteq> []" by (simp add: example_metrics_def)
  have b: "best_agent example_metrics = ''SAC''"
    by (simp add: best_agent_def py_max_key_def latest_accuracy_def example_metrics_def)
  have r: "''Random'' \<in> set (map fst example_metrics)"
    by (simp add: example_metrics_def)
  from best_agent_first_maximal[OF h1 h2]
  have m: "best_agent example_metrics \<in> set (map fst example_metrics)"
    and le: "\<forall>a\<in>set (map fst example_metrics).
      latest_accuracy example_metrics a \<le> latest_accuracy example_metrics (best_agent example_metrics)"
    and "\<exists>before after. agents = before @ best_agent example_metrics # after \<and>
      (\<forall>a\<in>set before. a \<noteq> ''TD3'' \<longrightarrow>
         latest_accuracy example_metrics a < latest_accuracy example_metrics (best_agent example_metrics))"
    by blast+
  then obtain before after where o: "agents = before @ ''SAC'' # after"
    and lt: "\<forall>a\<in>set before. a \<noteq> ''TD3'' \<longrightarrow>
         latest_accuracy example_metrics a < latest_accuracy example_metrics (best_agent example_metrics)"
    unfolding b by blast
  from o have "before = [''PPO'']"
    by (auto simp: agents_def Cons_eq_append_conv)
  with lt have "latest_accuracy example_metrics ''PPO'' <
                latest_accuracy example_metrics (best_agent example_metrics)" by simp
  then show ?thesis using h1 h2 b m le r by blast
qed

lemma dict_set_new: "k \<notin> set (map fst d) \<Longrightarrow> dict_set d k v = d @ [(k, v)]"
  by (simp add: dict_set_def)

lemma dict_set_keys: "set (map fst (dict_set d k v)) = insert k (set (map fst d))"
  by (force simp: dict_set_def)

lemma progress_loop_Cons_cases:
  assumes "progress_loop m fs available (agent # rest) am printed = Inr r"
  shows "(\<exists>printed1. progress_loop m fs available rest am printed1 = Inr r) \<or>
         (\<exists>v printed1. progress_loop m fs available rest (dict_set am agent v) printed1 = Inr r)"
proof (cases "case map_of available agent of None \<Rightarrow> False | Some b \<Rightarrow> b")
  case False
  then show ?thesis using assms by auto
next
  case True
  obtain warned df where l: "load_metrics m fs agent = (warned, df)" by (cases "load_metrics m fs agent")
  show ?thesis
  proof (cases df)
    case None
    then show ?thesis using assms True l by auto
  next
    case (Some rows)
    show ?thesis
    proof (cases "length rows = 0")
      case True
      then show ?thesis using assms \<open>case map_of available agent of None \<Rightarrow> False | Some b \<Rightarrow> b\<close> l Some
        by auto
    next
      case False
      then show ?thesis using assms \<open>case map_of available agent of None \<Rightarrow> False | Some b \<Rightarrow> b\<close> l Some
        by (cases "get_latest_metrics (Some rows)") (auto simp: Let_def)
    qed
  qed
qed


lemma progress_loop_keys_subset:
  "progress_loop m fs available as am printed = Inr (am', printed') \<Longrightarrow>
   set (map fst am') \<subseteq> set (map fst am) \<union> set as"
proof (induction as arbitrary: am printed)
  case Nil
  then show ?case by simp
next
  case (Cons agent rest)
  from progress_loop_Cons_cases[OF Cons.prems] show ?case
  proof
    assume "\<exists>printed1. progress_loop m fs available rest am printed1 = Inr (am', printed')"
    then obtain printed1 where "progress_loop m fs available rest am printed1 = Inr (am', printed')"
      by blast
    from Cons.IH[OF this] show ?thesis by auto
  next
    assume "\<exists>v printed1. progress_loop m fs available rest (dict_set am agent v) printed1 = Inr (am', printed')"
    then obtain v printed1 where
      "progress_loop m fs available rest (dict_set am agent v) printed1 = Inr (am', printed')"
      by blast
    from Cons.IH[OF this] have "set (map fst am') \<subseteq> insert agent (set (map fst am)) \<union> set rest"
      by (simp only: dict_set_keys)
    then show ?thesis by auto
  qed
qed

lemma progress_loop_keys:
  "progress_loop m fs available as am printed = Inr (am', printed') \<Longrightarrow>
   distinct as \<Longrightarrow> set as \<inter> set (map fst am) = {} \<Longrightarrow>
   map fst am' = map fst am @ filter (\<lambda>a. a \<in> set (map fst am')) as"
proof (induction as arbitrary: am printed)
  case Nil
  then show ?case by simp
next
  case (Cons agent rest)
  from Cons.prems have d: "distinct rest" and nr: "agent \<notin> set rest"
    and na: "agent \<notin> set (map fst am)" and dj: "set rest \<inter> set (map fst am) = {}"
    by auto
  define Q where "Q = (\<lambda>a. a \<in> set (map fst am'))"
  from progress_loop_Cons_cases[OF Cons.prems(1)] show ?case
  proof
    assume "\<exists>printed1. progress_loop m fs available rest am printed1 = Inr (am', printed')"
    then obtain printed1 where skip: "progress_loop m fs available rest am printed1 = Inr (am', printed')"
      by blast
    note k = Cons.IH[OF skip d dj, folded Q_def]
    have "\<not> Q agent"
      using progress_loop_keys_subset[OF skip] na nr by (auto simp: Q_def)
    then have "map fst am' = map fst am @ filter Q (agent # rest)" using k by simp
    then show ?thesis by (simp only: Q_def)
  next
    assume "\<exists>v printed1. progress_loop m fs available rest (dict_set am agent v) printed1 = Inr (am', printed')"
    then obtain v printed1 where
      store: "progress_loop m fs available rest (dict_set am agent v) printed1 = Inr (am', printed')"
      by blast
    have s: "dict_set am agent v = am @ [(agent, v)]" using na by (rule dict_set_new)
    have dj': "set rest \<inter> set (map fst (dict_set am agent v)) = {}"
      using dj nr by (simp add: s)
    note k0 = Cons.IH[OF store d dj', folded Q_def]
    have k: "map fst am' = map fst am @ agent # filter Q rest"
      using k0 by (simp add: s)
    then have "agent \<in> set (map fst am')" by (metis in_set_conv_decomp)
    then have "Q agent" by (simp add: Q_def)
    then have "map fst am' = map fst am @ filter Q (agent # rest)" using k by simp
    then show ?thesis by (simp only: Q_def)
  qed
qed

lemma progress_loop_agents_order:
  assumes "progress_loop m fs available agents [] printed = Inr (am, printed')"
  shows "map fst am = filter (\<lambda>a. a \<in> set (map fst am)) agents"
  using progress_loop_keys[OF assms] by (simp add: agents_def)

lemma display_training_progress_best:
  assumes "list_ex snd (check_files_exist m fs)"
      and "progress_loop m fs (check_files_exist m fs) agents []
             [Text (LF # ''TRAINING PROGRESS''), Text (rule_line CHR ''-''),
              Text table_header, Text (rule_line CHR ''-'')] = Inr (am, printed)"
      and "am \<noteq> []"
  shows "display_training_progress m fs =
         Inr (printed @ [Text (LF # rule_line CHR ''-''),
                         BestPerformance (best_agent am) (latest_accuracy am (best_agent am))])"
  using assms by (simp add: display_training_progress_def Let_def)

section \<open>A malformed field in the last row\<close>

lemma malformed_round_rows:
  "load_metrics (example_monitor\<lparr>iteration := n\<rparr>) malformed_round_fs ''PPO'' =
   ([], Some [[Some ''round'' \<mapsto> Str ''abc'', Some ''accuracy'' \<mapsto> Str ''0.5'',
               Some ''reward'' \<mapsto> Str ''0.1'']])"
proof -
  have "DictReader (''round,accuracy,reward'' @ [LF] @ ''abc,0.5,0.1'' @ [LF]) =
        Inr [dict_row [''round'', ''accuracy'', ''reward''] [''abc'', ''0.5'', ''0.1'']]"
    by (simp add: DictReader_def csv_defs)
  then show ?thesis
    by (simp add: load_metrics_def example_monitor_def read_table_def malformed_round_fs_def
        fs_defs read_text_def dict_row_def)
qed

lemma malformed_round_latest:
  "get_latest_metrics (Some [[Some ''round'' \<mapsto> Str ''abc'', Some ''accuracy'' \<mapsto> Str ''0.5'',
               Some ''reward'' \<mapsto> Str ''0.1'']]) = Inl ValueError"
  by (simp add: get_latest_metrics_def get_float_def float_defs)

lemma malformed_round_available:
  "check_files_exist (example_monitor\<lparr>iteration := n\<rparr>) malformed_round_fs =
   [(''PPO'', True), (''SAC'', False), (''TD3'', False), (''Random'', False)]"
  by (simp add: check_files_exist_def example_monitor_def malformed_round_fs_def fs_defs)

text \<open>
  C4 says that a display cycle completes whatever the rows hold. With the text \<^verbatim>\<open>abc\<close>
  as the round of the last row of PPO, \<^verbatim>\<open>get_latest_metrics\<close> raises \<^verbatim>\<open>ValueError\<close>;
  nothing in \<^verbatim>\<open>display_training_progress\<close> or in \<^verbatim>\<open>run\<close> catches it, and the cycle ends
  with that error and no dashboard.
\<close>

theorem cycle_malformed_round_raises:
  "display_training_progress example_monitor malformed_round_fs = Inl ValueError \<and>
   cycle 0 example_monitor malformed_round_fs = Inl ValueError"
proof -
  have "display_training_progress (example_monitor\<lparr>iteration := n\<rparr>) malformed_round_fs
        = Inl ValueError" for n
    by (simp add: display_training_progress_def agents_def malformed_round_available
        malformed_round_rows malformed_round_latest)
  from this[of 0] this[of 1] show ?thesis
    by (simp add: cycle_def example_monitor_def)
qed

text \<open>
  The history display converts the same two fields inside a \<^verbatim>\<open>try\<close> and degrades to one
  line for the agent, which is what the progress display lacks.
\<close>

lemma history_line_malformed_round:
  "history_line example_monitor malformed_round_fs ''PPO'' = [FormatError ''PPO'']"
  using malformed_round_rows[of 0]
  by (simp add: history_line_def example_monitor_def float_defs)

end
